theory Spec2Isabelle
  imports Complex_Main "HOL-Library.AList" "HOL-Library.Signed_Division"
begin

section \<open>Results of calls\<close>

text \<open>
  A Go call either returns or panics (index out of bounds, nil dereference, integer
  division by zero, an explicit \<^verbatim>\<open>panic(...)\<close>). Go's \<^verbatim>\<open>int\<close> is modelled by the
  unbounded \<^typ>\<open>int\<close>; this is exact as long as no intermediate value leaves the 64-bit
  range (where a file that is imported decides the operands, the 64-bit result is written
  out). A \<^verbatim>\<open>float64\<close> is modelled by a \<^typ>\<open>real\<close>: the functions below only copy
  such values and compare them with \<^verbatim>\<open>0.0\<close>.
\<close>

datatype 'a res = Ok 'a | Panic

text \<open>
  A Go \<^verbatim>\<open>error\<close> value: one made from a message by \<^verbatim>\<open>errors.New\<close> or
  \<^verbatim>\<open>fmt.Errorf\<close>, or the error of a failed \<^verbatim>\<open>strconv\<close> parse. A returned
  \<^verbatim>\<open>nil\<close> error is \<open>None\<close> of type \<open>error option\<close>.
\<close>

datatype error = Error string | ParseError

section \<open>Differentiable scalars and the scalar store\<close>

text \<open>
  Modelled from the spec: the scalar types behind \<^verbatim>\<open>SCALAR_TYPE\<close> (their methods
  \<^verbatim>\<open>GetValue\<close>, \<^verbatim>\<open>GetOrder\<close>, \<^verbatim>\<open>GetN\<close>, \<^verbatim>\<open>GetDerivative\<close>, \<^verbatim>\<open>GetHessian\<close>,
  \<^verbatim>\<open>SetValue\<close>, \<^verbatim>\<open>Clone\<close> and the constructors \<^verbatim>\<open>NEW_SCALAR\<close>, \<^verbatim>\<open>NULL_SCALAR\<close>)
  are not among the sources. Section 3 of the specification: a scalar holds a value, an
  order, a derivative sequence whose length is the number of free variables and a Hessian;
  it is created from a literal value with order 0 and no derivative, and it is cloned by
  a deep copy of value, derivative and Hessian.

  \<^verbatim>\<open>SCALAR_TYPE\<close> is a pointer type (the templates compare it with \<^verbatim>\<open>nil\<close>). A
  pointer is an address of the scalar store or \<open>None\<close> for \<^verbatim>\<open>nil\<close>; the store is the
  list of all scalars allocated so far, and a fresh scalar is appended to it.
\<close>

record scalar =
  sc_value :: real
  sc_order :: nat
  sc_derivative :: "real list"
  sc_hessian :: "real list list"

type_synonym ptr = "nat option"
type_synonym heap = "scalar list"

definition deref :: "heap \<Rightarrow> ptr \<Rightarrow> scalar res" where
  "deref h p = (case p of None \<Rightarrow> Panic
                | Some a \<Rightarrow> if a < length h then Ok (h ! a) else Panic)"

definition GetValue :: "heap \<Rightarrow> ptr \<Rightarrow> real res" where
  "GetValue h p = (case deref h p of Panic \<Rightarrow> Panic | Ok s \<Rightarrow> Ok (sc_value s))"

definition GetN :: "scalar \<Rightarrow> nat" where
  "GetN s = length (sc_derivative s)"

definition NEW_SCALAR :: "real \<Rightarrow> heap \<Rightarrow> ptr \<times> heap" where
  "NEW_SCALAR x h =
     (Some (length h),
      h @ [\<lparr> sc_value = x, sc_order = 0, sc_derivative = [], sc_hessian = [] \<rparr>])"

definition NULL_SCALAR :: "heap \<Rightarrow> ptr \<times> heap" where
  "NULL_SCALAR h = NEW_SCALAR 0 h"

definition Scalar_Clone :: "ptr \<Rightarrow> heap \<Rightarrow> (ptr \<times> heap) res" where
  "Scalar_Clone p h = (case deref h p of Panic \<Rightarrow> Panic
                       | Ok s \<Rightarrow> Ok (Some (length h), h @ [s]))"

definition SetValue :: "ptr \<Rightarrow> real \<Rightarrow> heap \<Rightarrow> heap res" where
  "SetValue p x h = (case p of None \<Rightarrow> Panic
                     | Some a \<Rightarrow> if a < length h
                                 then Ok (h[a := (h ! a)\<lparr> sc_value := x \<rparr>]) else Panic)"

text \<open>
  A \<^verbatim>\<open>ConstScalar\<close> interface value as the sparse vector hands it out: a stored
  pointer (which may be a nil pointer), or the constant \<^verbatim>\<open>CONST_SCALAR_TYPE(0.0)\<close>.
  A nil interface is \<open>None\<close> of type \<open>constScalar option\<close>.
\<close>

datatype constScalar = Stored ptr | ConstZero

definition Const_GetValue :: "heap \<Rightarrow> constScalar \<Rightarrow> real res" where
  "Const_GetValue h c = (case c of Stored p \<Rightarrow> GetValue h p | ConstZero \<Rightarrow> Ok 0)"

section \<open>Sparse index structure\<close>

text \<open>
  Modelled from the spec: the type \<^verbatim>\<open>vectorSparseIndex\<close> with \<^verbatim>\<open>indexInsert\<close>,
  \<^verbatim>\<open>indexDelete\<close>, \<^verbatim>\<open>indexIterator\<close>, \<^verbatim>\<open>indexIteratorFrom\<close>, \<^verbatim>\<open>indexClone\<close> and
  its iterator \<^verbatim>\<open>vectorSparseIndexIterator\<close> (\<^verbatim>\<open>Ok\<close>, \<^verbatim>\<open>Get\<close>, \<^verbatim>\<open>Next\<close>) are not
  among the sources. Section 4.1 of the specification: the structure holds a sequence of
  indices and a sortedness flag; insert appends and marks the structure unsorted; delete
  removes the index and keeps the order; an iterator sorts the sequence if it is not
  sorted and then produces the indices not below a start bound in ascending order; clone
  copies the sequence and the flag. An iterator is the sequence of indices it has still
  to produce.
\<close>

record vectorSparseIndex =
  idx_values :: "int list"
  idx_sorted :: bool

type_synonym vectorSparseIndexIterator = "int list"

definition empty_index :: vectorSparseIndex where
  "empty_index = \<lparr> idx_values = [], idx_sorted = False \<rparr>"

definition indexInsert :: "int \<Rightarrow> vectorSparseIndex \<Rightarrow> vectorSparseIndex" where
  "indexInsert i x = \<lparr> idx_values = idx_values x @ [i], idx_sorted = False \<rparr>"

definition indexDelete :: "int \<Rightarrow> vectorSparseIndex \<Rightarrow> vectorSparseIndex" where
  "indexDelete i x = x\<lparr> idx_values := removeAll i (idx_values x) \<rparr>"

definition indexSort :: "vectorSparseIndex \<Rightarrow> vectorSparseIndex" where
  "indexSort x = (if idx_sorted x then x
                  else \<lparr> idx_values = sort (idx_values x), idx_sorted = True \<rparr>)"

definition indexIterator ::
  "vectorSparseIndex \<Rightarrow> vectorSparseIndexIterator \<times> vectorSparseIndex" where
  "indexIterator x = (idx_values (indexSort x), indexSort x)"

definition indexIteratorFrom ::
  "int \<Rightarrow> vectorSparseIndex \<Rightarrow> vectorSparseIndexIterator \<times> vectorSparseIndex" where
  "indexIteratorFrom i x = (filter (\<lambda>k. i \<le> k) (idx_values (indexSort x)), indexSort x)"

definition indexClone :: "vectorSparseIndex \<Rightarrow> vectorSparseIndex" where
  "indexClone x = \<lparr> idx_values = idx_values x, idx_sorted = idx_sorted x \<rparr>"

definition Index_Ok :: "vectorSparseIndexIterator \<Rightarrow> bool" where
  "Index_Ok it = (it \<noteq> [])"

definition Index_Get :: "vectorSparseIndexIterator \<Rightarrow> int res" where
  "Index_Get it = (case it of [] \<Rightarrow> Panic | k # _ \<Rightarrow> Ok k)"

definition Index_Next :: "vectorSparseIndexIterator \<Rightarrow> vectorSparseIndexIterator" where
  "Index_Next it = tl it"

section \<open>Sparse vector\<close>

text \<open>
  \<^verbatim>\<open>type VECTOR_NAME struct\<close> of \<^verbatim>\<open>vector_sparse_template.in\<close>: the embedded
  index, the map \<^verbatim>\<open>values map[int]SCALAR_TYPE\<close> as an association list with one pair
  for each key, and the dimension \<^verbatim>\<open>n\<close>.
\<close>

record sparseVector =
  vec_index :: vectorSparseIndex
  vec_values :: "(int \<times> ptr) list"
  vec_n :: int

text \<open>The one-value read \<^verbatim>\<open>obj.values[k]\<close>: a missing key reads as \<^verbatim>\<open>nil\<close>.\<close>

definition lookup :: "(int \<times> ptr) list \<Rightarrow> int \<Rightarrow> ptr" where
  "lookup m k = (case map_of m k of None \<Rightarrow> None | Some p \<Rightarrow> p)"

definition NIL_VECTOR :: "int \<Rightarrow> sparseVector" where
  "NIL_VECTOR len = \<lparr> vec_index = empty_index, vec_values = [], vec_n = len \<rparr>"

definition NULL_VECTOR :: "int \<Rightarrow> sparseVector" where
  "NULL_VECTOR len = NIL_VECTOR len"

definition Dim :: "sparseVector \<Rightarrow> int" where
  "Dim obj = vec_n obj"

text \<open>\<^verbatim>\<open>NEW_VECTOR(indices, values, n)\<close>: the loop over \<^verbatim>\<open>indices\<close>, then the function.\<close>

fun NEW_VECTOR_loop ::
  "int list \<Rightarrow> real list \<Rightarrow> int \<Rightarrow> sparseVector \<Rightarrow> heap \<Rightarrow> (sparseVector \<times> heap) res" where
  "NEW_VECTOR_loop [] vs n r h = Ok (r, h)"
| "NEW_VECTOR_loop (k # ks) [] n r h = Panic"
| "NEW_VECTOR_loop (k # ks) (x # vs) n r h =
     (if k \<ge> n then Panic
      else if map_of (vec_values r) k \<noteq> None then Panic
      else if x \<noteq> 0 then
        (case NEW_SCALAR x h of (p, h') \<Rightarrow>
           NEW_VECTOR_loop ks vs n
             (r\<lparr> vec_values := AList.update k p (vec_values r),
                 vec_index := indexInsert k (vec_index r) \<rparr>) h')
      else NEW_VECTOR_loop ks vs n r h)"

definition NEW_VECTOR :: "int list \<Rightarrow> real list \<Rightarrow> int \<Rightarrow> heap \<Rightarrow> (sparseVector \<times> heap) res" where
  "NEW_VECTOR indices vals n h =
     (if length indices \<noteq> length vals then Panic
      else NEW_VECTOR_loop indices vals n (NIL_VECTOR n) h)"

text \<open>\<^verbatim>\<open>func (obj VECTOR_TYPE) Clone() VECTOR_TYPE\<close>\<close>

fun Clone_loop ::
  "(int \<times> ptr) list \<Rightarrow> sparseVector \<Rightarrow> heap \<Rightarrow> (sparseVector \<times> heap) res" where
  "Clone_loop [] r h = Ok (r, h)"
| "Clone_loop ((i, v) # m) r h =
     (case Scalar_Clone v h of Panic \<Rightarrow> Panic
      | Ok (p, h') \<Rightarrow> Clone_loop m (r\<lparr> vec_values := AList.update i p (vec_values r) \<rparr>) h')"

definition Vector_Clone :: "sparseVector \<Rightarrow> heap \<Rightarrow> (sparseVector \<times> heap) res" where
  "Vector_Clone obj h =
     (case Clone_loop (vec_values obj) (NIL_VECTOR (vec_n obj)) h of Panic \<Rightarrow> Panic
      | Ok (r, h') \<Rightarrow> Ok (r\<lparr> vec_index := indexClone (vec_index obj) \<rparr>, h'))"

text \<open>\<^verbatim>\<open>ValueAt\<close>, \<^verbatim>\<open>ConstAt\<close>, \<^verbatim>\<open>AT\<close>\<close>

definition Vector_ValueAt :: "sparseVector \<Rightarrow> int \<Rightarrow> heap \<Rightarrow> real res" where
  "Vector_ValueAt obj i h =
     (if i < 0 \<or> i \<ge> Dim obj then Panic
      else case map_of (vec_values obj) i of Some v \<Rightarrow> GetValue h v | None \<Rightarrow> Ok 0)"

definition Vector_ConstAt :: "sparseVector \<Rightarrow> int \<Rightarrow> constScalar res" where
  "Vector_ConstAt obj i =
     (if i < 0 \<or> i \<ge> Dim obj then Panic
      else case map_of (vec_values obj) i of Some v \<Rightarrow> Ok (Stored v) | None \<Rightarrow> Ok ConstZero)"

definition Vector_AT :: "sparseVector \<Rightarrow> int \<Rightarrow> heap \<Rightarrow> (ptr \<times> sparseVector \<times> heap) res" where
  "Vector_AT obj i h =
     (if i < 0 \<or> i \<ge> Dim obj then Panic
      else case map_of (vec_values obj) i of
             Some v \<Rightarrow> Ok (v, obj, h)
           | None \<Rightarrow> (case NULL_SCALAR h of (v, h') \<Rightarrow>
                Ok (v, obj\<lparr> vec_values := AList.update i v (vec_values obj),
                             vec_index := indexInsert i (vec_index obj) \<rparr>, h')))"

text \<open>\<^verbatim>\<open>func (obj VECTOR_TYPE) Swap(i, j int)\<close>: both reads, then both writes.\<close>

definition Vector_Swap :: "sparseVector \<Rightarrow> int \<Rightarrow> int \<Rightarrow> sparseVector" where
  "Vector_Swap obj i j =
     (let vi = lookup (vec_values obj) i; vj = lookup (vec_values obj) j
      in obj\<lparr> vec_values := AList.update j vi (AList.update i vj (vec_values obj)) \<rparr>)"

text \<open>
  \<^verbatim>\<open>func (obj VECTOR_TYPE) Slice(i, j int) Vector\<close>: the loop over the index iterator
  started at \<^verbatim>\<open>i\<close>, then the function, which returns the new vector and the receiver
  (whose index the iterator has sorted).
\<close>

fun Slice_loop ::
  "vectorSparseIndexIterator \<Rightarrow> int \<Rightarrow> int \<Rightarrow> sparseVector \<Rightarrow> sparseVector \<Rightarrow> sparseVector" where
  "Slice_loop [] i j obj r = r"
| "Slice_loop (k # it) i j obj r =
     (if k \<ge> j then r
      else Slice_loop it i j obj
             (r\<lparr> vec_values := AList.update (k - i) (lookup (vec_values obj) k) (vec_values r),
                 vec_index := indexInsert (k - i) (vec_index r) \<rparr>))"

definition Vector_Slice :: "sparseVector \<Rightarrow> int \<Rightarrow> int \<Rightarrow> sparseVector \<times> sparseVector" where
  "Vector_Slice obj i j =
     (case indexIteratorFrom i (vec_index obj) of
        (it, x) \<Rightarrow> (Slice_loop it i j obj (NIL_VECTOR (j - i)), obj\<lparr> vec_index := x \<rparr>))"

text \<open>
  \<^verbatim>\<open>func (obj VECTOR_TYPE) Permute(pi []int) error\<close>. The first loop runs over
  \<^verbatim>\<open>i = 0 .. n-1\<close> and reads \<^verbatim>\<open>pi[i]\<close>; after the length check these are the
  elements of \<^verbatim>\<open>pi\<close> in order. An error is returned with the vector as the loop has
  left it.
\<close>

fun Permute_loop :: "int list \<Rightarrow> int \<Rightarrow> sparseVector \<Rightarrow> error option \<times> sparseVector" where
  "Permute_loop [] i obj = (None, obj)"
| "Permute_loop (p # ps) i obj =
     (if p < 0 \<or> p \<ge> vec_n obj then (Some (Error ''Permute(): invalid permutation''), obj)
      else if i \<noteq> p \<and> p > i then
        (let ok1 = (map_of (vec_values obj) i \<noteq> None);
             ok2 = (map_of (vec_values obj) p \<noteq> None);
             vi = lookup (vec_values obj) i;
             vp = lookup (vec_values obj) p
         in if ok1 \<and> ok2 then
              Permute_loop ps (i + 1)
                (obj\<lparr> vec_values := AList.update i vp (AList.update p vi (vec_values obj)) \<rparr>)
            else if ok1 then
              Permute_loop ps (i + 1)
                (obj\<lparr> vec_values := AList.delete i (AList.update p vi (vec_values obj)) \<rparr>)
            else if ok2 then
              Permute_loop ps (i + 1)
                (obj\<lparr> vec_values := AList.delete p (AList.update i vp (vec_values obj)) \<rparr>)
            else Permute_loop ps (i + 1) obj)
      else Permute_loop ps (i + 1) obj)"

definition Vector_Permute :: "sparseVector \<Rightarrow> int list \<Rightarrow> error option \<times> sparseVector" where
  "Vector_Permute obj perm =
     (if int (length perm) \<noteq> vec_n obj
      then (Some (Error ''Permute(): permutation vector has invalid length!''), obj)
      else case Permute_loop perm 0 obj of
             (Some e, obj') \<Rightarrow> (Some e, obj')
           | (None, obj') \<Rightarrow>
               (None, obj'\<lparr> vec_index := fold indexInsert perm empty_index \<rparr>))"

text \<open>\<^verbatim>\<open>func (obj VECTOR_TYPE) nullScalar(s SCALAR_TYPE) bool\<close>\<close>

definition nullScalar :: "heap \<Rightarrow> ptr \<Rightarrow> bool res" where
  "nullScalar h s =
     (case deref h s of Panic \<Rightarrow> Panic
      | Ok x \<Rightarrow> Ok
         (if sc_value x \<noteq> 0 then False
          else if sc_order x \<ge> 1 \<and>
                  list_ex (\<lambda>i. sc_derivative x ! i \<noteq> 0) [0..<GetN x] then False
          else if sc_order x \<ge> 2 \<and>
                  list_ex (\<lambda>i. list_ex (\<lambda>j. sc_hessian x ! i ! j \<noteq> 0) [0..<GetN x]) [0..<GetN x]
               then False
          else True))"

subsection \<open>Iterator\<close>

text \<open>
  \<^verbatim>\<open>VECTOR_ITERATOR\<close> is an index iterator together with a pointer to its vector; the
  vector is passed to each method and returned when the method changes it.
\<close>

definition ITERATOR :: "sparseVector \<Rightarrow> vectorSparseIndexIterator \<times> sparseVector" where
  "ITERATOR obj = (case indexIterator (vec_index obj) of (it, x) \<Rightarrow> (it, obj\<lparr> vec_index := x \<rparr>))"

definition Iterator_GET :: "vectorSparseIndexIterator \<Rightarrow> sparseVector \<Rightarrow> ptr res" where
  "Iterator_GET it obj =
     (case Index_Get it of Panic \<Rightarrow> Panic | Ok k \<Rightarrow> Ok (lookup (vec_values obj) k))"

definition Iterator_GetConst ::
  "vectorSparseIndexIterator \<Rightarrow> sparseVector \<Rightarrow> constScalar option res" where
  "Iterator_GetConst it obj =
     (case Index_Get it of Panic \<Rightarrow> Panic
      | Ok k \<Rightarrow> Ok (case map_of (vec_values obj) k of Some v \<Rightarrow> Some (Stored v) | None \<Rightarrow> None))"

text \<open>
  \<^verbatim>\<open>func (obj *VECTOR_ITERATOR) Next()\<close>: one step of the index iterator, then the loop
  that deletes structural zeros.
\<close>

fun Iterator_skip ::
  "heap \<Rightarrow> vectorSparseIndexIterator \<Rightarrow> sparseVector \<Rightarrow> (vectorSparseIndexIterator \<times> sparseVector) res" where
  "Iterator_skip h [] obj = Ok ([], obj)"
| "Iterator_skip h (i # it) obj =
     (case nullScalar h (lookup (vec_values obj) i) of
        Panic \<Rightarrow> Panic
      | Ok False \<Rightarrow> Ok (i # it, obj)
      | Ok True \<Rightarrow>
          Iterator_skip h it
            (obj\<lparr> vec_values := AList.delete i (vec_values obj),
                  vec_index := indexDelete i (vec_index obj) \<rparr>))"

definition Iterator_Next ::
  "heap \<Rightarrow> vectorSparseIndexIterator \<Rightarrow> sparseVector \<Rightarrow> (vectorSparseIndexIterator \<times> sparseVector) res" where
  "Iterator_Next h it obj = Iterator_skip h (Index_Next it) obj"

subsection \<open>Joint iterator\<close>

text \<open>
  \<^verbatim>\<open>type VECTOR_JOINT_ITERATOR struct\<close>. Each of its two iterators holds a pointer
  to its vector (the field \<^verbatim>\<open>v\<close> of \<^verbatim>\<open>VECTOR_ITERATOR\<close>), an address of the store
  of vectors; the two pointers may be the same.
\<close>

record jointIterator =
  ji_it1 :: vectorSparseIndexIterator
  ji_v1 :: "nat option"
  ji_it2 :: vectorSparseIndexIterator
  ji_v2 :: "nat option"
  ji_idx :: int
  ji_s1 :: ptr
  ji_s2 :: "constScalar option"

text \<open>\<^verbatim>\<open>func (obj *VECTOR_JOINT_ITERATOR) Ok() bool\<close>, with Go's short-circuit evaluation.\<close>

definition Joint_Ok :: "heap \<Rightarrow> jointIterator \<Rightarrow> bool res" where
  "Joint_Ok h J =
     (case (case ji_s1 J of None \<Rightarrow> Ok True
            | Some a \<Rightarrow> (case GetValue h (Some a) of Panic \<Rightarrow> Panic | Ok x \<Rightarrow> Ok (x = 0))) of
        Panic \<Rightarrow> Panic
      | Ok False \<Rightarrow> Ok True
      | Ok True \<Rightarrow>
          (case ji_s2 J of None \<Rightarrow> Ok False
           | Some c \<Rightarrow> (case Const_GetValue h c of Panic \<Rightarrow> Panic | Ok x \<Rightarrow> Ok (x \<noteq> 0))))"

text \<open>
  The first part of \<^verbatim>\<open>func (obj *VECTOR_JOINT_ITERATOR) Next()\<close>, up to the end of the
  \<^verbatim>\<open>switch\<close>: it reads the two vectors \<open>a\<close> and \<open>b\<close> of the iterators and changes
  neither. The second operand is a sparse vector (its \<^verbatim>\<open>ConstIterator\<close> is
  \<^verbatim>\<open>ITERATOR\<close>).
\<close>

definition Joint_select :: "jointIterator \<Rightarrow> sparseVector \<Rightarrow> sparseVector \<Rightarrow> jointIterator" where
  "Joint_select J a b =
     (let ok1 = Index_Ok (ji_it1 J);
          ok2 = Index_Ok (ji_it2 J);
          J1 = J\<lparr> ji_s1 := None, ji_s2 := None \<rparr>;
          J2 = (if ok1 then J1\<lparr> ji_idx := hd (ji_it1 J),
                                 ji_s1 := lookup (vec_values a) (hd (ji_it1 J)) \<rparr>
                else J1)
      in if ok2 then
           (if ji_idx J2 > hd (ji_it2 J) \<or> \<not> ok1 then
              J2\<lparr> ji_idx := hd (ji_it2 J), ji_s1 := None,
                  ji_s2 := (case map_of (vec_values b) (hd (ji_it2 J)) of
                              Some v \<Rightarrow> Some (Stored v) | None \<Rightarrow> None) \<rparr>
            else if ji_idx J2 = hd (ji_it2 J) then
              J2\<lparr> ji_s2 := (case map_of (vec_values b) (hd (ji_it2 J)) of
                              Some v \<Rightarrow> Some (Stored v) | None \<Rightarrow> None) \<rparr>
            else J2)
         else J2)"

text \<open>\<^verbatim>\<open>func (obj *VECTOR_JOINT_ITERATOR) GetValue() (float64, float64)\<close>\<close>

definition Joint_GetValue :: "heap \<Rightarrow> jointIterator \<Rightarrow> (real \<times> real) res" where
  "Joint_GetValue h J =
     (case (case ji_s1 J of None \<Rightarrow> Ok 0 | Some a \<Rightarrow> GetValue h (Some a)) of
        Panic \<Rightarrow> Panic
      | Ok v1 \<Rightarrow>
          (case (case ji_s2 J of None \<Rightarrow> Ok 0 | Some c \<Rightarrow> Const_GetValue h c) of
             Panic \<Rightarrow> Panic
           | Ok v2 \<Rightarrow> Ok (v1, v2)))"

subsection \<open>The loop over an iterator\<close>

text \<open>
  \<^verbatim>\<open>for it := obj.ITERATOR(); it.Ok(); it.Next() { }\<close> is \<open>iterate\<close> from the fresh
  iterator. The loop ends: every step of an iterator shortens the sequence it has still
  to produce.
\<close>

lemma Iterator_skip_length:
  "Iterator_skip h it obj = Ok (it', obj') \<Longrightarrow> length it' \<le> length it"
  by (induction it arbitrary: obj) (auto split: res.splits bool.splits intro: le_SucI)

lemma Iterator_Next_length:
  "Iterator_Next h it obj = Ok (it', obj') \<Longrightarrow> it \<noteq> [] \<Longrightarrow> length it' < length it"
  unfolding Iterator_Next_def Index_Next_def
  by (cases it) (auto dest: Iterator_skip_length)

lemma Iterator_Next_length_le:
  "Iterator_Next h it obj = Ok (it', obj') \<Longrightarrow> length it' \<le> length it"
  unfolding Iterator_Next_def Index_Next_def
  by (cases it) (auto dest: Iterator_skip_length intro: le_SucI)

function iterate :: "heap \<Rightarrow> vectorSparseIndexIterator \<Rightarrow> sparseVector \<Rightarrow> sparseVector res" where
  "iterate h it obj =
     (if Index_Ok it then
        (case Iterator_Next h it obj of Panic \<Rightarrow> Panic | Ok (it', obj') \<Rightarrow> iterate h it' obj')
      else Ok obj)"
  by pat_completeness auto
termination
  by (relation "measure (\<lambda>(h, it, obj). length it)")
     (auto simp: Index_Ok_def dest: Iterator_Next_length)

definition full_iteration :: "heap \<Rightarrow> sparseVector \<Rightarrow> sparseVector res" where
  "full_iteration h obj = (case ITERATOR obj of (it, obj') \<Rightarrow> iterate h it obj')"

subsection \<open>Import of a sparse table\<close>

text \<open>
  The file is given by the lines its \<^verbatim>\<open>bufio.Scanner\<close> produces, after a successful
  \<^verbatim>\<open>os.Open\<close>. A Go string is a sequence of bytes. \<^verbatim>\<open>strings.Fields\<close> of the Go
  library splits a string around runs of white space: it decodes the bytes as UTF-8,
  one character at a time (\<open>DecodeRune\<close> gives the code point and the number of bytes;
  a byte that starts no valid encoding is the character \<^verbatim>\<open>U+FFFD\<close> of one byte), and
  asks \<^verbatim>\<open>unicode.IsSpace\<close> of each character.
\<close>

definition DecodeRune :: "int list \<Rightarrow> int \<times> nat" where
  "DecodeRune p =
     (case p of
        [] \<Rightarrow> (0xFFFD, 0)
      | p0 # r1 \<Rightarrow>
          if p0 < 0x80 then (p0, 1)
          else if p0 < 0xC2 \<or> 0xF4 < p0 then (0xFFFD, 1)
          else
            (let sz = (if p0 < 0xE0 then 2 else if p0 < 0xF0 then 3 else 4 :: nat);
                 lo = (if p0 = 0xE0 then 0xA0 else if p0 = 0xF0 then 0x90 else 0x80);
                 hi = (if p0 = 0xED then 0x9F else if p0 = 0xF4 then 0x8F else 0xBF)
             in if length p < sz then (0xFFFD, 1)
                else case r1 of
                       [] \<Rightarrow> (0xFFFD, 1)
                     | b1 # r2 \<Rightarrow>
                         if b1 < lo \<or> hi < b1 then (0xFFFD, 1)
                         else if sz \<le> 2 then ((p0 mod 0x20) * 0x40 + b1 mod 0x40, 2)
                         else case r2 of
                                [] \<Rightarrow> (0xFFFD, 1)
                              | b2 # r3 \<Rightarrow>
                                  if b2 < 0x80 \<or> 0xBF < b2 then (0xFFFD, 1)
                                  else if sz \<le> 3 then
                                    ((p0 mod 0x10) * 0x1000 + (b1 mod 0x40) * 0x40 + b2 mod 0x40, 3)
                                  else case r3 of
                                         [] \<Rightarrow> (0xFFFD, 1)
                                       | b3 # r4 \<Rightarrow>
                                           if b3 < 0x80 \<or> 0xBF < b3 then (0xFFFD, 1)
                                           else ((p0 mod 0x08) * 0x40000 + (b1 mod 0x40) * 0x1000
                                                   + (b2 mod 0x40) * 0x40 + b3 mod 0x40, 4)))"

definition IsSpace :: "int \<Rightarrow> bool" where
  "IsSpace r =
     (r \<in> set [0x09, 0x0A, 0x0B, 0x0C, 0x0D, 0x20, 0x85, 0xA0,
                0x1680, 0x2028, 0x2029, 0x202F, 0x205F, 0x3000]
      \<or> (0x2000 \<le> r \<and> r \<le> 0x200A))"

fun Fields_from :: "string \<Rightarrow> string \<Rightarrow> string list" where
  "Fields_from cur [] = (if cur = [] then [] else [cur])"
| "Fields_from cur (c # cs) =
     (case DecodeRune (map of_char (take 4 (c # cs))) of
        (r, w) \<Rightarrow>
          if IsSpace r
          then (if cur = [] then Fields_from [] (drop (w - 1) cs)
                else cur # Fields_from [] (drop (w - 1) cs))
          else Fields_from (cur @ c # take (w - 1) cs) (drop (w - 1) cs))"

definition Fields :: "string \<Rightarrow> string list" where
  "Fields s = Fields_from [] s"

text \<open>\<^verbatim>\<open>strings.Split(s, ":")\<close> cuts at every separator byte.\<close>

fun Split_from :: "char \<Rightarrow> string \<Rightarrow> string \<Rightarrow> string list" where
  "Split_from sep cur [] = [cur]"
| "Split_from sep cur (c # cs) =
     (if c = sep then cur # Split_from sep [] cs else Split_from sep (cur @ [c]) cs)"

definition Split :: "string \<Rightarrow> char \<Rightarrow> string list" where
  "Split s sep = Split_from sep [] s"

text \<open>
  \<^verbatim>\<open>strconv.ParseInt(s, 10, 64)\<close> and \<^verbatim>\<open>strconv.ParseFloat(s, 64)\<close> of the Go
  library are not written out. The parameter \<open>pI\<close> gives the integer that a string
  denotes in base 10 and \<open>None\<close> for a string that denotes none; \<open>ParseInt\<close> returns an
  error also for an integer outside the 64-bit range, as the library does. The parameter
  \<open>pF\<close> is \<^verbatim>\<open>ParseFloat\<close>, \<open>None\<close> where the library returns an error.
  \<^verbatim>\<open>int(k)+1\<close> is computed in 64 bits: \<open>int64\<close> is the value of a result in two's
  complement.
\<close>

definition ParseInt :: "(string \<Rightarrow> int option) \<Rightarrow> string \<Rightarrow> int option" where
  "ParseInt pI s =
     (case pI s of None \<Rightarrow> None
      | Some k \<Rightarrow> if k < - (2 ^ 63) \<or> 2 ^ 63 \<le> k then None else Some k)"

definition int64 :: "int \<Rightarrow> int" where
  "int64 x = (x + 2 ^ 63) mod 2 ^ 64 - 2 ^ 63"

text \<open>
  \<^verbatim>\<open>func (obj VECTOR_TYPE) Import(filename string) error\<close>: the loop over the fields of
  a line, the loop over the lines, the function. The loops work on the local slices
  \<^verbatim>\<open>indices\<close>, \<^verbatim>\<open>values\<close> and the local \<^verbatim>\<open>n\<close>; \<open>None\<close> is the return of
  \<^verbatim>\<open>fmt.Errorf("invalid sparse table")\<close>.
\<close>

fun Import_fields ::
  "(string \<Rightarrow> int option) \<Rightarrow> (string \<Rightarrow> real option) \<Rightarrow> string list
     \<Rightarrow> int list \<times> real list \<times> int \<Rightarrow> (int list \<times> real list \<times> int) option" where
  "Import_fields pI pF [] acc = Some acc"
| "Import_fields pI pF (f # fs) (indices, vals, n) =
     (case Split f CHR '':'' of
        [s0, s1] \<Rightarrow>
          (case ParseInt pI s0 of None \<Rightarrow> None
           | Some k \<Rightarrow>
               (let indices' = indices @ [k];
                    n' = (if int64 (k + 1) > n then int64 (k + 1) else n)
                in case pF s1 of None \<Rightarrow> None
                   | Some v \<Rightarrow> Import_fields pI pF fs (indices', vals @ [v], n')))
      | _ \<Rightarrow> None)"

fun Import_lines ::
  "(string \<Rightarrow> int option) \<Rightarrow> (string \<Rightarrow> real option) \<Rightarrow> sparseVector \<Rightarrow> string list
     \<Rightarrow> int list \<times> real list \<times> int \<Rightarrow> (int list \<times> real list \<times> int) option" where
  "Import_lines pI pF obj [] acc = Some acc"
| "Import_lines pI pF obj (l # ls) acc =
     (if length (Fields l) = 0 then Import_lines pI pF obj ls acc
      else if length (vec_values obj) \<noteq> 0 then None
      else case Import_fields pI pF (Fields l) acc of None \<Rightarrow> None
           | Some acc' \<Rightarrow> Import_lines pI pF obj ls acc')"

definition Vector_Import ::
  "(string \<Rightarrow> int option) \<Rightarrow> (string \<Rightarrow> real option) \<Rightarrow> sparseVector \<Rightarrow> string list \<Rightarrow> heap
     \<Rightarrow> (error option \<times> sparseVector \<times> heap) res" where
  "Vector_Import pI pF obj lines h =
     (case Import_lines pI pF obj lines ([], [], 0) of
        None \<Rightarrow> Ok (Some (Error ''invalid sparse table''), obj, h)
      | Some (indices, vals, n) \<Rightarrow>
          (case NEW_VECTOR indices vals n h of Panic \<Rightarrow> Panic
           | Ok (r, h') \<Rightarrow> Ok (None, r, h')))"

section \<open>Sparse vector, channel variant\<close>

text \<open>
  The second part of \<^verbatim>\<open>vector_sparse_template.in\<close>: the index set \<^verbatim>\<open>INDEX_SLICE\<close> and
  the vector built on it, whose iteration runs over channels.
\<close>

record INDEX_SLICE =
  is_values :: "int list"
  is_isSorted :: bool

text \<open>
  \<^verbatim>\<open>func (obj INDEX_SLICE) sort()\<close> has a value receiver: it sorts the shared array
  of \<^verbatim>\<open>values\<close> and sets \<^verbatim>\<open>isSorted\<close> in its own copy of the struct only.
\<close>

definition INDEX_SLICE_sort :: "INDEX_SLICE \<Rightarrow> INDEX_SLICE" where
  "INDEX_SLICE_sort obj =
     (if is_isSorted obj = False then obj\<lparr> is_values := sort (is_values obj) \<rparr> else obj)"

definition INDEX_SLICE_insert :: "INDEX_SLICE \<Rightarrow> int \<Rightarrow> INDEX_SLICE" where
  "INDEX_SLICE_insert obj i = \<lparr> is_values = is_values obj @ [i], is_isSorted = False \<rparr>"

text \<open>
  \<^verbatim>\<open>func (obj INDEX_SLICE) clone() INDEX_SLICE\<close>: \<^verbatim>\<open>r := INDEX_SLICE{}\<close> is the zero
  value (no values, \<^verbatim>\<open>isSorted\<close> false); then the values are copied.
\<close>

definition INDEX_SLICE_zero :: INDEX_SLICE where
  "INDEX_SLICE_zero = \<lparr> is_values = [], is_isSorted = False \<rparr>"

definition INDEX_SLICE_clone :: "INDEX_SLICE \<Rightarrow> INDEX_SLICE" where
  "INDEX_SLICE_clone obj = INDEX_SLICE_zero\<lparr> is_values := is_values obj \<rparr>"

record chanVector =
  cv_indices :: INDEX_SLICE
  cv_values :: "(int \<times> ptr) list"
  cv_n :: int

definition Chan_NIL_VECTOR :: "int \<Rightarrow> chanVector" where
  "Chan_NIL_VECTOR len = \<lparr> cv_indices = INDEX_SLICE_zero, cv_values = [], cv_n = len \<rparr>"

text \<open>\<^verbatim>\<open>func (obj *VECTOR_TYPE) Slice(i, j int) Vector\<close>, a loop over the map.\<close>

fun Chan_Slice_loop :: "(int \<times> ptr) list \<Rightarrow> int \<Rightarrow> int \<Rightarrow> chanVector \<Rightarrow> chanVector" where
  "Chan_Slice_loop [] i j r = r"
| "Chan_Slice_loop ((k, v) # m) i j r =
     (if i \<le> k \<and> k < j
      then Chan_Slice_loop m i j (r\<lparr> cv_values := AList.update (k - i) v (cv_values r) \<rparr>)
      else Chan_Slice_loop m i j r)"

definition Chan_Slice :: "chanVector \<Rightarrow> int \<Rightarrow> int \<Rightarrow> chanVector" where
  "Chan_Slice obj i j = Chan_Slice_loop (cv_values obj) i j (Chan_NIL_VECTOR (j - i))"

text \<open>\<^verbatim>\<open>func (obj *VECTOR_TYPE) Permute(pi []int) error\<close>\<close>

fun Chan_Permute_loop :: "int list \<Rightarrow> int \<Rightarrow> chanVector \<Rightarrow> error option \<times> chanVector" where
  "Chan_Permute_loop [] i obj = (None, obj)"
| "Chan_Permute_loop (p # ps) i obj =
     (if p < 0 \<or> p \<ge> cv_n obj then (Some (Error ''Permute(): invalid permutation''), obj)
      else if i \<noteq> p \<and> p > i then
        (let ok1 = (map_of (cv_values obj) i \<noteq> None);
             ok2 = (map_of (cv_values obj) p \<noteq> None);
             vi = lookup (cv_values obj) i;
             vp = lookup (cv_values obj) p
         in if ok1 \<and> ok2 then
              Chan_Permute_loop ps (i + 1)
                (obj\<lparr> cv_values := AList.update i vp (AList.update p vi (cv_values obj)) \<rparr>)
            else if ok1 then
              Chan_Permute_loop ps (i + 1)
                (obj\<lparr> cv_values := AList.delete i (AList.update p vi (cv_values obj)) \<rparr>)
            else if ok2 then
              Chan_Permute_loop ps (i + 1)
                (obj\<lparr> cv_values := AList.delete p (AList.update i vp (cv_values obj)) \<rparr>)
            else Chan_Permute_loop ps (i + 1) obj)
      else Chan_Permute_loop ps (i + 1) obj)"

definition Chan_Permute :: "chanVector \<Rightarrow> int list \<Rightarrow> error option \<times> chanVector" where
  "Chan_Permute obj perm =
     (if int (length perm) \<noteq> cv_n obj
      then (Some (Error ''Permute(): permutation vector has invalid length!''), obj)
      else Chan_Permute_loop perm 0 obj)"




section \<open>Sparse matrix header\<close>

text \<open>
  \<^verbatim>\<open>type MATRIX_NAME struct\<close> of \<^verbatim>\<open>matrix_sparse_template.in\<close>. The fields
  \<^verbatim>\<open>values\<close>, \<^verbatim>\<open>tmp1\<close> and \<^verbatim>\<open>tmp2\<close> are pointers to sparse vectors: an address
  of the vector store, \<open>None\<close> for \<^verbatim>\<open>nil\<close>.
\<close>

record matrix =
  mat_values :: "nat option"
  mat_rows :: int
  mat_cols :: int
  mat_rowOffset :: int
  mat_rowMax :: int
  mat_colOffset :: int
  mat_colMax :: int
  mat_transposed :: bool
  mat_tmp1 :: "nat option"
  mat_tmp2 :: "nat option"

text \<open>\<^verbatim>\<open>func (matrix MATRIX_TYPE) index(i, j int) int\<close>\<close>

definition index :: "matrix \<Rightarrow> int \<Rightarrow> int \<Rightarrow> int res" where
  "index m i j =
     (if i < 0 \<or> j < 0 \<or> i \<ge> mat_rows m \<or> j \<ge> mat_cols m then Panic
      else if mat_transposed m
        then Ok ((mat_colOffset m + j) * mat_rowMax m + (mat_rowOffset m + i))
        else Ok ((mat_rowOffset m + i) * mat_colMax m + (mat_colOffset m + j)))"

text \<open>
  \<^verbatim>\<open>func (matrix MATRIX_TYPE) ij(k int) (int, int)\<close>. Go's \<^verbatim>\<open>%\<close> and \<^verbatim>\<open>/\<close> truncate
  towards zero (\<open>smod\<close>, \<open>sdiv\<close>) and panic on a zero divisor.
\<close>

definition ij :: "matrix \<Rightarrow> int \<Rightarrow> (int \<times> int) res" where
  "ij m k =
     (if mat_transposed m then
        (if mat_colMax m = 0 then Panic
         else Ok ((k smod mat_colMax m) - mat_colOffset m,
                  (k sdiv mat_colMax m) - mat_rowOffset m))
      else
        (if mat_rowMax m = 0 then Panic
         else Ok ((k smod mat_rowMax m) - mat_rowOffset m,
                  (k sdiv mat_rowMax m) - mat_colOffset m)))"

text \<open>The header that \<^verbatim>\<open>NULL_MATRIX(rows, cols)\<close> fills in, before \<^verbatim>\<open>initTmp\<close>.\<close>

definition header :: "nat option \<Rightarrow> int \<Rightarrow> int \<Rightarrow> matrix" where
  "header v rows cols =
     \<lparr> mat_values = v, mat_rows = rows, mat_cols = cols,
       mat_rowOffset = 0, mat_rowMax = rows, mat_colOffset = 0, mat_colMax = cols,
       mat_transposed = False, mat_tmp1 = None, mat_tmp2 = None \<rparr>"

section \<open>The store of vectors and scalars\<close>

text \<open>
  A matrix holds pointers to its backing vector and to its scratch vectors, and several
  matrix headers may hold the same pointer. The vectors live in a store next to the
  scalars; a method of a vector at an address reads the vector, runs, and writes it back.
\<close>

record store =
  st_vectors :: "sparseVector list"
  st_scalars :: heap

definition vector_at :: "store \<Rightarrow> nat option \<Rightarrow> sparseVector res" where
  "vector_at st p = (case p of None \<Rightarrow> Panic
                     | Some a \<Rightarrow> if a < length (st_vectors st) then Ok (st_vectors st ! a) else Panic)"

definition new_vector :: "sparseVector \<Rightarrow> store \<Rightarrow> nat option \<times> store" where
  "new_vector v st = (Some (length (st_vectors st)), st\<lparr> st_vectors := st_vectors st @ [v] \<rparr>)"

definition set_vector :: "nat option \<Rightarrow> sparseVector \<Rightarrow> store \<Rightarrow> store" where
  "set_vector p v st = (case p of None \<Rightarrow> st
                        | Some a \<Rightarrow> st\<lparr> st_vectors := (st_vectors st)[a := v] \<rparr>)"

section \<open>Joint iteration over two sparse vectors\<close>

text \<open>
  The second part of \<^verbatim>\<open>func (obj *VECTOR_JOINT_ITERATOR) Next()\<close>: the two calls of
  \<^verbatim>\<open>Next\<close> on the iterators. Each reads its vector from the store, may delete
  structural zeros of it, and writes it back; when both iterators point to one vector,
  the second works on what the first has left. A pointer that is no vector of the store
  cannot be read.
\<close>

definition Joint_Next :: "jointIterator \<Rightarrow> store \<Rightarrow> (jointIterator \<times> store) res" where
  "Joint_Next J st =
     (case vector_at st (ji_v1 J) of Panic \<Rightarrow> Panic
      | Ok a \<Rightarrow>
     (case vector_at st (ji_v2 J) of Panic \<Rightarrow> Panic
      | Ok b \<Rightarrow>
     (let J3 = Joint_select J a b
      in case (if ji_s1 J3 \<noteq> None then
                 (case Iterator_Next (st_scalars st) (ji_it1 J3) a of Panic \<Rightarrow> Panic
                  | Ok (it1, a') \<Rightarrow> Ok (it1, set_vector (ji_v1 J) a' st))
               else Ok (ji_it1 J3, st)) of
           Panic \<Rightarrow> Panic
         | Ok (it1, st1) \<Rightarrow>
             (if ji_s2 J3 \<noteq> None then
                (case vector_at st1 (ji_v2 J) of Panic \<Rightarrow> Panic
                 | Ok b1 \<Rightarrow>
                     (case Iterator_Next (st_scalars st1) (ji_it2 J3) b1 of Panic \<Rightarrow> Panic
                      | Ok (it2, b') \<Rightarrow>
                          Ok (J3\<lparr> ji_it1 := it1, ji_it2 := it2 \<rparr>, set_vector (ji_v2 J) b' st1)))
              else Ok (J3\<lparr> ji_it1 := it1, ji_s2 := Some ConstZero \<rparr>, st1)))))"

text \<open>
  \<^verbatim>\<open>func (obj VECTOR_TYPE) JOINT_ITERATOR(b ConstVector) *VECTOR_JOINT_ITERATOR\<close>, for
  the receiver at the address \<open>pa\<close> and a sparse vector \<open>b\<close> at the address \<open>pb\<close>:
  \<^verbatim>\<open>obj.ITERATOR()\<close>, then \<^verbatim>\<open>b.ConstIterator()\<close>, then the first \<^verbatim>\<open>Next()\<close>.
\<close>

definition JOINT_ITERATOR ::
  "nat option \<Rightarrow> nat option \<Rightarrow> store \<Rightarrow> (jointIterator \<times> store) res" where
  "JOINT_ITERATOR pa pb st =
     (case vector_at st pa of Panic \<Rightarrow> Panic
      | Ok a \<Rightarrow>
          (case ITERATOR a of (it1, a') \<Rightarrow>
             (let st1 = set_vector pa a' st
              in case vector_at st1 pb of Panic \<Rightarrow> Panic
                 | Ok b \<Rightarrow>
                     (case ITERATOR b of (it2, b') \<Rightarrow>
                        Joint_Next \<lparr> ji_it1 = it1, ji_v1 = pa, ji_it2 = it2, ji_v2 = pb,
                                     ji_idx = - 1, ji_s1 = None, ji_s2 = None \<rparr>
                                   (set_vector pb b' st1)))))"

text \<open>
  \<^verbatim>\<open>for it := a.JOINT_ITERATOR(b); it.Ok(); it.Next() { ... }\<close> is \<open>Joint_loop\<close>,
  which collects \<^verbatim>\<open>it.Index()\<close> and \<^verbatim>\<open>it.GET()\<close> of every round. The loop ends:
  a round in which \<^verbatim>\<open>Ok()\<close> holds again has shortened one of the two sequences.
\<close>

definition joint_measure :: "jointIterator \<Rightarrow> store \<Rightarrow> nat" where
  "joint_measure J st =
     length (ji_it1 J) + length (ji_it2 J) + (if Joint_Ok (st_scalars st) J = Ok True then 1 else 0)"

lemma Joint_select_its:
  "ji_it1 (Joint_select J a b) = ji_it1 J" "ji_it2 (Joint_select J a b) = ji_it2 J"
  by (auto simp: Joint_select_def Let_def)

lemma Joint_select_s1: "ji_s1 (Joint_select J a b) \<noteq> None \<Longrightarrow> ji_it1 J \<noteq> []"
  by (auto simp: Joint_select_def Let_def Index_Ok_def split: if_splits)

lemma Joint_select_s2: "ji_s2 (Joint_select J a b) \<noteq> None \<Longrightarrow> ji_it2 J \<noteq> []"
  by (auto simp: Joint_select_def Let_def Index_Ok_def split: if_splits)

lemma Joint_Next_measure:
  assumes "Joint_Next J st = Ok (J', st')"
  shows "length (ji_it1 J') + length (ji_it2 J')
           + (if Joint_Ok (st_scalars st') J' = Ok True then 1 else 0)
           \<le> length (ji_it1 J) + length (ji_it2 J)"
proof -
  from assms obtain a b where a: "vector_at st (ji_v1 J) = Ok a" and b: "vector_at st (ji_v2 J) = Ok b"
    by (auto simp: Joint_Next_def split: res.splits)
  let ?J3 = "Joint_select J a b"
  show ?thesis
  proof (cases "ji_s1 ?J3 = None")
    case s1: True
    show ?thesis
    proof (cases "ji_s2 ?J3 = None")
      case True
      with s1 assms a b have J': "J' = ?J3\<lparr> ji_it1 := ji_it1 ?J3, ji_s2 := Some ConstZero \<rparr>"
        by (auto simp: Joint_Next_def Let_def)
      have "Joint_Ok (st_scalars st') J' = Ok False"
        using s1 by (simp add: J' Joint_Ok_def Const_GetValue_def)
      then show ?thesis by (simp add: J' Joint_select_its)
    next
      case False
      with s1 assms a b obtain it2 b1 b' where
        n: "Iterator_Next (st_scalars st) (ji_it2 J) b1 = Ok (it2, b')" and
        J': "J' = ?J3\<lparr> ji_it1 := ji_it1 ?J3, ji_it2 := it2 \<rparr>"
        by (auto simp: Joint_Next_def Let_def Joint_select_its split: res.splits)
      from False have "ji_it2 J \<noteq> []" by (rule Joint_select_s2)
      with n have "length it2 < length (ji_it2 J)" by (auto dest: Iterator_Next_length)
      then show ?thesis by (simp add: J' Joint_select_its)
    qed
  next
    case s1: False
    then have ne: "ji_it1 J \<noteq> []" by (rule Joint_select_s1)
    from s1 assms a b obtain it1 a' where
      n1: "Iterator_Next (st_scalars st) (ji_it1 J) a = Ok (it1, a')" and it1: "ji_it1 J' = it1"
      by (auto simp: Joint_Next_def Let_def Joint_select_its split: res.splits if_splits)
    from n1 ne have A: "length (ji_it1 J') < length (ji_it1 J)"
      unfolding it1 by (rule Iterator_Next_length)
    have B: "length (ji_it2 J') \<le> length (ji_it2 J)"
    proof (cases "ji_s2 ?J3 = None")
      case True
      with s1 assms a b show ?thesis
        by (auto simp: Joint_Next_def Let_def Joint_select_its split: res.splits)
    next
      case False
      with s1 assms a b obtain it2 b1 b' h1 where
        n2: "Iterator_Next h1 (ji_it2 J) b1 = Ok (it2, b')" and it2: "ji_it2 J' = it2"
        by (auto simp: Joint_Next_def Let_def Joint_select_its split: res.splits)
      from n2 show ?thesis unfolding it2 by (rule Iterator_Next_length_le)
    qed
    from A B show ?thesis by auto
  qed
qed

function Joint_loop ::
  "jointIterator \<Rightarrow> store \<Rightarrow> ((int \<times> ptr \<times> constScalar option) list \<times> store) res" where
  "Joint_loop J st =
     (case Joint_Ok (st_scalars st) J of
        Panic \<Rightarrow> Panic
      | Ok False \<Rightarrow> Ok ([], st)
      | Ok True \<Rightarrow>
          (case Joint_Next J st of Panic \<Rightarrow> Panic
           | Ok (J', st') \<Rightarrow>
               (case Joint_loop J' st' of Panic \<Rightarrow> Panic
                | Ok (ys, st'') \<Rightarrow> Ok ((ji_idx J, ji_s1 J, ji_s2 J) # ys, st''))))"
  by pat_completeness auto
termination
  apply (relation "measure (\<lambda>(J, st). joint_measure J st)")
   apply simp
  apply (clarsimp simp: joint_measure_def)
  apply (drule Joint_Next_measure)
  apply (simp split: if_splits)
  done

definition joint_iteration ::
  "nat option \<Rightarrow> nat option \<Rightarrow> store
     \<Rightarrow> ((int \<times> ptr \<times> constScalar option) list \<times> store) res" where
  "joint_iteration pa pb st =
     (case JOINT_ITERATOR pa pb st of Panic \<Rightarrow> Panic
      | Ok (J, st1) \<Rightarrow> Joint_loop J st1)"

section \<open>Sparse matrix\<close>

text \<open>\<^verbatim>\<open>func (matrix MATRIX_TYPE) initTmp()\<close>: one scratch vector, then both.\<close>

definition initTmp_vector :: "nat option \<Rightarrow> int \<Rightarrow> store \<Rightarrow> (nat option \<times> store) res" where
  "initTmp_vector tmp k st =
     (case tmp of
        None \<Rightarrow> Ok (new_vector (NULL_VECTOR k) st)
      | Some a \<Rightarrow>
          (case vector_at st tmp of Panic \<Rightarrow> Panic
           | Ok v \<Rightarrow>
               if Dim v < k then Ok (new_vector (NULL_VECTOR k) st)
               else (case Vector_Slice v 0 k of
                       (r, v') \<Rightarrow> Ok (new_vector r (set_vector tmp v' st)))))"

definition initTmp :: "matrix \<Rightarrow> store \<Rightarrow> (matrix \<times> store) res" where
  "initTmp m st =
     (case initTmp_vector (mat_tmp1 m) (mat_rows m) st of Panic \<Rightarrow> Panic
      | Ok (t1, st1) \<Rightarrow>
          (case initTmp_vector (mat_tmp2 m) (mat_cols m) st1 of Panic \<Rightarrow> Panic
           | Ok (t2, st2) \<Rightarrow> Ok (m\<lparr> mat_tmp1 := t1, mat_tmp2 := t2 \<rparr>, st2)))"

text \<open>\<^verbatim>\<open>NULL_MATRIX\<close>, \<^verbatim>\<open>NIL_MATRIX\<close>\<close>

definition NULL_MATRIX :: "int \<Rightarrow> int \<Rightarrow> store \<Rightarrow> (matrix \<times> store) res" where
  "NULL_MATRIX rows cols st =
     (case new_vector (NULL_VECTOR (rows * cols)) st of
        (v, st1) \<Rightarrow> initTmp (header v rows cols) st1)"

definition NIL_MATRIX :: "int \<Rightarrow> int \<Rightarrow> store \<Rightarrow> matrix \<times> store" where
  "NIL_MATRIX rows cols st =
     (case new_vector (NIL_VECTOR (rows * cols)) st of
        (v, st1) \<Rightarrow> (header v rows cols, st1))"

text \<open>\<^verbatim>\<open>AT\<close>, \<^verbatim>\<open>ConstAt\<close>, \<^verbatim>\<open>ValueAt\<close> of the matrix\<close>

definition Matrix_AT :: "matrix \<Rightarrow> int \<Rightarrow> int \<Rightarrow> store \<Rightarrow> (ptr \<times> store) res" where
  "Matrix_AT m i j st =
     (case index m i j of Panic \<Rightarrow> Panic
      | Ok k \<Rightarrow>
          (case vector_at st (mat_values m) of Panic \<Rightarrow> Panic
           | Ok v \<Rightarrow>
               (case Vector_AT v k (st_scalars st) of Panic \<Rightarrow> Panic
                | Ok (p, v', h') \<Rightarrow>
                    Ok (p, (set_vector (mat_values m) v' st)\<lparr> st_scalars := h' \<rparr>))))"

definition Matrix_ConstAt :: "matrix \<Rightarrow> int \<Rightarrow> int \<Rightarrow> store \<Rightarrow> constScalar res" where
  "Matrix_ConstAt m i j st =
     (case index m i j of Panic \<Rightarrow> Panic
      | Ok k \<Rightarrow> (case vector_at st (mat_values m) of Panic \<Rightarrow> Panic
                 | Ok v \<Rightarrow> Vector_ConstAt v k))"

definition Matrix_ValueAt :: "matrix \<Rightarrow> int \<Rightarrow> int \<Rightarrow> store \<Rightarrow> real res" where
  "Matrix_ValueAt m i j st =
     (case Matrix_ConstAt m i j st of Panic \<Rightarrow> Panic
      | Ok c \<Rightarrow> Const_GetValue (st_scalars st) c)"

text \<open>\<^verbatim>\<open>NEW_MATRIX(rows, cols, rowIndices, colIndices, values)\<close>\<close>

fun NEW_MATRIX_loop ::
  "int list \<Rightarrow> int list \<Rightarrow> real list \<Rightarrow> matrix \<Rightarrow> store \<Rightarrow> store res" where
  "NEW_MATRIX_loop (j1 # rs) (j2 # cs) (x # vs) m st =
     (if x \<noteq> 0 then
        (case Matrix_AT m j1 j2 st of Panic \<Rightarrow> Panic
         | Ok (p, st1) \<Rightarrow>
             (case SetValue p x (st_scalars st1) of Panic \<Rightarrow> Panic
              | Ok h' \<Rightarrow> NEW_MATRIX_loop rs cs vs m (st1\<lparr> st_scalars := h' \<rparr>)))
      else NEW_MATRIX_loop rs cs vs m st)"
| "NEW_MATRIX_loop rs cs vs m st = Ok st"

definition NEW_MATRIX ::
  "int \<Rightarrow> int \<Rightarrow> int list \<Rightarrow> int list \<Rightarrow> real list \<Rightarrow> store \<Rightarrow> (matrix \<times> store) res" where
  "NEW_MATRIX rows cols rowIndices colIndices vals st =
     (case NULL_MATRIX rows cols st of Panic \<Rightarrow> Panic
      | Ok (m, st1) \<Rightarrow>
          if length rowIndices \<noteq> length colIndices then Panic
          else if length colIndices \<noteq> length vals then Panic
          else (case NEW_MATRIX_loop rowIndices colIndices vals m st1 of Panic \<Rightarrow> Panic
                | Ok st2 \<Rightarrow> Ok (m, st2)))"

text \<open>\<^verbatim>\<open>func (matrix MATRIX_TYPE) Clone() MATRIX_TYPE\<close>\<close>

definition Clone_at :: "nat option \<Rightarrow> store \<Rightarrow> (nat option \<times> store) res" where
  "Clone_at p st =
     (case vector_at st p of Panic \<Rightarrow> Panic
      | Ok v \<Rightarrow> (case Vector_Clone v (st_scalars st) of Panic \<Rightarrow> Panic
                 | Ok (r, h') \<Rightarrow> Ok (new_vector r (st\<lparr> st_scalars := h' \<rparr>))))"

definition Matrix_Clone :: "matrix \<Rightarrow> store \<Rightarrow> (matrix \<times> store) res" where
  "Matrix_Clone m st =
     (case Clone_at (mat_values m) st of Panic \<Rightarrow> Panic
      | Ok (v, st1) \<Rightarrow>
          (case Clone_at (mat_tmp1 m) st1 of Panic \<Rightarrow> Panic
           | Ok (t1, st2) \<Rightarrow>
               (case Clone_at (mat_tmp2 m) st2 of Panic \<Rightarrow> Panic
                | Ok (t2, st3) \<Rightarrow>
                    Ok (\<lparr> mat_values = v, mat_rows = mat_rows m, mat_cols = mat_cols m,
                          mat_rowOffset = mat_rowOffset m, mat_rowMax = mat_rowMax m,
                          mat_colOffset = mat_colOffset m, mat_colMax = mat_colMax m,
                          mat_transposed = mat_transposed m,
                          mat_tmp1 = t1, mat_tmp2 = t2 \<rparr>, st3))))"

text \<open>\<^verbatim>\<open>func (matrix MATRIX_TYPE) T() Matrix\<close>\<close>

definition Matrix_T :: "matrix \<Rightarrow> matrix" where
  "Matrix_T m =
     \<lparr> mat_values = mat_values m, mat_rows = mat_cols m, mat_cols = mat_rows m,
       mat_rowOffset = mat_colOffset m, mat_rowMax = mat_colMax m,
       mat_colOffset = mat_rowOffset m, mat_colMax = mat_rowMax m,
       mat_transposed = (\<not> mat_transposed m),
       mat_tmp1 = mat_tmp2 m, mat_tmp2 = mat_tmp1 m \<rparr>"

text \<open>
  \<^verbatim>\<open>func (matrix MATRIX_TYPE) Tip()\<close>. The inner \<^verbatim>\<open>for { ... }\<close> has no bound of its
  own, so it is a partial function: \<open>None\<close> stands for a loop that never ends. A write
  \<^verbatim>\<open>visited[k] = true\<close> outside the slice panics. The outer loop runs over
  \<^verbatim>\<open>cycle = 1 .. mn-1\<close>.
\<close>

partial_function (option) Tip_cycle ::
  "int \<Rightarrow> int \<Rightarrow> int \<Rightarrow> int \<Rightarrow> bool list \<Rightarrow> sparseVector \<Rightarrow> (bool list \<times> sparseVector) res option" where
  "Tip_cycle rows mn cycle k visited v =
     (let k' = (if k \<noteq> mn - 1 then (rows * k) smod (mn - 1) else k)
      in if k' < 0 \<or> k' \<ge> int (length visited) then Some Panic
         else if k' = cycle
           then Some (Ok (visited[nat k' := True], Vector_Swap v k' cycle))
           else Tip_cycle rows mn cycle k' (visited[nat k' := True]) (Vector_Swap v k' cycle))"

fun Tip_cycles ::
  "int \<Rightarrow> int \<Rightarrow> int list \<Rightarrow> bool list \<Rightarrow> sparseVector \<Rightarrow> sparseVector res option" where
  "Tip_cycles rows mn [] visited v = Some (Ok v)"
| "Tip_cycles rows mn (cycle # cs) visited v =
     (if visited ! nat cycle then Tip_cycles rows mn cs visited v
      else case Tip_cycle rows mn cycle cycle visited v of
             None \<Rightarrow> None
           | Some Panic \<Rightarrow> Some Panic
           | Some (Ok (visited', v')) \<Rightarrow> Tip_cycles rows mn cs visited' v')"

definition Matrix_Tip :: "matrix \<Rightarrow> store \<Rightarrow> (matrix \<times> store) res option" where
  "Matrix_Tip m st =
     (case vector_at st (mat_values m) of Panic \<Rightarrow> Some Panic
      | Ok v \<Rightarrow>
          (let mn = Dim v
           in if mn < 0 then Some Panic
              else case Tip_cycles (mat_rows m) mn [1 .. mn - 1] (replicate (nat mn) False) v of
                     None \<Rightarrow> None
                   | Some Panic \<Rightarrow> Some Panic
                   | Some (Ok v') \<Rightarrow>
                       Some (Ok (m\<lparr> mat_rows := mat_cols m, mat_cols := mat_rows m,
                                     mat_rowOffset := mat_colOffset m, mat_colOffset := mat_rowOffset m,
                                     mat_rowMax := mat_colMax m, mat_colMax := mat_rowMax m,
                                     mat_tmp1 := mat_tmp2 m, mat_tmp2 := mat_tmp1 m \<rparr>,
                                  set_vector (mat_values m) v' st))))"

text \<open>
  \<^verbatim>\<open>func (matrix MATRIX_TYPE) IsSymmetric(epsilon float64) bool\<close>. The method
  \<^verbatim>\<open>Equals\<close> of the scalars is not among the sources and is the parameter \<open>equals\<close>,
  a comparison of two scalar values up to a tolerance; a nil scalar cannot be read. The
  loop runs over the iterator of the backing vector, whose \<^verbatim>\<open>Next\<close> may delete
  entries of that vector.
\<close>

definition const_scalar :: "heap \<Rightarrow> constScalar \<Rightarrow> scalar res" where
  "const_scalar h c =
     (case c of Stored p \<Rightarrow> deref h p
      | ConstZero \<Rightarrow> Ok \<lparr> sc_value = 0, sc_order = 0, sc_derivative = [], sc_hessian = [] \<rparr>)"

definition Equals ::
  "(scalar \<Rightarrow> scalar \<Rightarrow> real \<Rightarrow> bool) \<Rightarrow> heap \<Rightarrow> constScalar \<Rightarrow> constScalar \<Rightarrow> real \<Rightarrow> bool res" where
  "Equals equals h c1 c2 eps =
     (case const_scalar h c1 of Panic \<Rightarrow> Panic
      | Ok x \<Rightarrow> (case const_scalar h c2 of Panic \<Rightarrow> Panic
                 | Ok y \<Rightarrow> Ok (equals x y eps)))"

function IsSymmetric_loop ::
  "(scalar \<Rightarrow> scalar \<Rightarrow> real \<Rightarrow> bool) \<Rightarrow> heap \<Rightarrow> matrix \<Rightarrow> vectorSparseIndexIterator
     \<Rightarrow> sparseVector \<Rightarrow> (bool \<times> sparseVector) res" where
  "IsSymmetric_loop equals h m it v =
     (if Index_Ok it then
        (case ij m (hd it) of Panic \<Rightarrow> Panic
         | Ok (i, j) \<Rightarrow>
             (case index m i j of Panic \<Rightarrow> Panic
              | Ok k1 \<Rightarrow>
                  (case Vector_ConstAt v k1 of Panic \<Rightarrow> Panic
                   | Ok c1 \<Rightarrow>
                       (case index m j i of Panic \<Rightarrow> Panic
                        | Ok k2 \<Rightarrow>
                            (case Vector_ConstAt v k2 of Panic \<Rightarrow> Panic
                             | Ok c2 \<Rightarrow>
                                 (case Equals equals h c1 c2 (1 / 10 ^ 12) of Panic \<Rightarrow> Panic
                                  | Ok False \<Rightarrow> Ok (False, v)
                                  | Ok True \<Rightarrow>
                                      (case Iterator_Next h it v of Panic \<Rightarrow> Panic
                                       | Ok (it', v') \<Rightarrow>
                                           IsSymmetric_loop equals h m it' v')))))))
      else Ok (True, v))"
  by pat_completeness auto
termination
  by (relation "measure (\<lambda>(equals, h, m, it, v). length it)")
     (auto simp: Index_Ok_def dest: Iterator_Next_length)

definition IsSymmetric ::
  "(scalar \<Rightarrow> scalar \<Rightarrow> real \<Rightarrow> bool) \<Rightarrow> matrix \<Rightarrow> real \<Rightarrow> store \<Rightarrow> (bool \<times> store) res" where
  "IsSymmetric equals m epsilon st =
     (if mat_rows m \<noteq> mat_cols m then Ok (False, st)
      else case vector_at st (mat_values m) of Panic \<Rightarrow> Panic
           | Ok v \<Rightarrow>
               (case ITERATOR v of (it, v1) \<Rightarrow>
                  (case IsSymmetric_loop equals (st_scalars st) m it v1 of Panic \<Rightarrow> Panic
                   | Ok (r, v2) \<Rightarrow> Ok (r, set_vector (mat_values m) v2 st))))"

text \<open>
  \<^verbatim>\<open>func (m MATRIX_TYPE) Import(filename string) error\<close>: the header line, the loop over
  the other lines, the function. An error of \<^verbatim>\<open>strconv\<close> is returned as it is.
\<close>

definition Matrix_Import_header ::
  "(string \<Rightarrow> int option) \<Rightarrow> string \<Rightarrow> error + int \<times> int" where
  "Matrix_Import_header pI l =
     (case Fields l of
        [f0, f1] \<Rightarrow>
          (case ParseInt pI f0 of None \<Rightarrow> Inl ParseError
           | Some rows \<Rightarrow> (case ParseInt pI f1 of None \<Rightarrow> Inl ParseError
                           | Some cols \<Rightarrow> Inr (rows, cols)))
      | _ \<Rightarrow> Inl (Error ''invalid sparse matrix format''))"

fun Matrix_Import_lines ::
  "(string \<Rightarrow> int option) \<Rightarrow> (string \<Rightarrow> real option) \<Rightarrow> string list
     \<Rightarrow> int list \<times> int list \<times> real list \<Rightarrow> error + int list \<times> int list \<times> real list" where
  "Matrix_Import_lines pI pF [] acc = Inr acc"
| "Matrix_Import_lines pI pF (l # ls) (rowIndices, colIndices, vals) =
     (case Fields l of
        [f0, f1, f2] \<Rightarrow>
          (case ParseInt pI f0 of None \<Rightarrow> Inl ParseError
           | Some r \<Rightarrow>
               (case ParseInt pI f1 of None \<Rightarrow> Inl ParseError
                | Some c \<Rightarrow>
                    (case pF f2 of None \<Rightarrow> Inl ParseError
                     | Some x \<Rightarrow>
                         Matrix_Import_lines pI pF ls
                           (rowIndices @ [r], colIndices @ [c], vals @ [x]))))
      | _ \<Rightarrow> Inl (Error ''invalid sparse matrix format''))"

definition Matrix_Import ::
  "(string \<Rightarrow> int option) \<Rightarrow> (string \<Rightarrow> real option) \<Rightarrow> matrix \<Rightarrow> string list \<Rightarrow> store
     \<Rightarrow> (error option \<times> matrix \<times> store) res" where
  "Matrix_Import pI pF m lines st =
     (case (case lines of [] \<Rightarrow> Inr ((0, 0), [])
            | l # ls \<Rightarrow> (case Matrix_Import_header pI l of Inl e \<Rightarrow> Inl e
                         | Inr d \<Rightarrow> Inr (d, ls))) of
        Inl e \<Rightarrow> Ok (Some e, m, st)
      | Inr ((rows, cols), ls) \<Rightarrow>
          (case Matrix_Import_lines pI pF ls ([], [], []) of
             Inl e \<Rightarrow> Ok (Some e, m, st)
           | Inr (rowIndices, colIndices, vals) \<Rightarrow>
               (case NEW_MATRIX rows cols rowIndices colIndices vals st of Panic \<Rightarrow> Panic
                | Ok (m', st') \<Rightarrow> Ok (None, m', st'))))"

section \<open>Concrete stores and parameters for the examples\<close>

definition empty_store :: store where
  "empty_store = \<lparr> st_vectors = [], st_scalars = [] \<rparr>"

text \<open>A comparison of the values of two scalars up to a tolerance, for \<open>equals\<close>.\<close>

definition close_values :: "scalar \<Rightarrow> scalar \<Rightarrow> real \<Rightarrow> bool" where
  "close_values x y eps = (\<bar>sc_value x - sc_value y\<bar> \<le> eps)"
















text \<open>
  The representation invariant of a sparse vector (section 3 of the specification): the
  map has one pair for each key, every key of the map stands exactly once in the index
  and every index stands for a key, and an index marked sorted is sorted.
\<close>

definition vec_inv :: "sparseVector \<Rightarrow> bool" where
  "vec_inv obj =
     (distinct (map fst (vec_values obj)) \<and>
      distinct (idx_values (vec_index obj)) \<and>
      set (idx_values (vec_index obj)) = fst ` set (vec_values obj) \<and>
      (idx_sorted (vec_index obj) \<longrightarrow> sorted (idx_values (vec_index obj))))"

text \<open>
  What a deep copy is about. \<open>vec_addrs\<close> are the scalars a vector points to, and a
  vector is allocated in a scalar store when its map has one pair for each key and every
  stored pointer is a scalar of the store. \<open>Vector_read\<close> is what a reader sees at an
  index: the scalar behind \<^verbatim>\<open>ConstAt\<close>, with its value and derivatives;
  \<open>vector_read\<close> reads through a pointer to a vector and \<open>Matrix_read\<close> through a
  matrix. Two lists are the \<open>same_on\<close> a set of addresses when the second has every cell
  of the first at these addresses: this is how a store relates to any later store in which
  only other cells were written or added. The pointers of a matrix are \<open>mat_ptrs\<close>, and
  a matrix is allocated when all three point to allocated vectors.
\<close>

definition vec_addrs :: "sparseVector \<Rightarrow> nat set" where
  "vec_addrs v = {a. \<exists>k. (k, Some a) \<in> set (vec_values v)}"

definition vec_allocated :: "heap \<Rightarrow> sparseVector \<Rightarrow> bool" where
  "vec_allocated h v =
     (distinct (map fst (vec_values v)) \<and>
      (\<forall>(k, p) \<in> set (vec_values v). \<exists>a. p = Some a \<and> a < length h))"

definition same_on :: "nat set \<Rightarrow> 'a list \<Rightarrow> 'a list \<Rightarrow> bool" where
  "same_on A xs ys = (\<forall>a \<in> A. a < length xs \<longrightarrow> a < length ys \<and> ys ! a = xs ! a)"

definition Vector_read :: "sparseVector \<Rightarrow> int \<Rightarrow> heap \<Rightarrow> scalar res" where
  "Vector_read v i h = (case Vector_ConstAt v i of Panic \<Rightarrow> Panic | Ok c \<Rightarrow> const_scalar h c)"

definition vector_read :: "store \<Rightarrow> nat option \<Rightarrow> int \<Rightarrow> scalar res" where
  "vector_read st p k =
     (case vector_at st p of Panic \<Rightarrow> Panic | Ok v \<Rightarrow> Vector_read v k (st_scalars st))"

definition Matrix_read :: "matrix \<Rightarrow> int \<Rightarrow> int \<Rightarrow> store \<Rightarrow> scalar res" where
  "Matrix_read m i j st =
     (case Matrix_ConstAt m i j st of Panic \<Rightarrow> Panic | Ok c \<Rightarrow> const_scalar (st_scalars st) c)"

definition mat_ptrs :: "matrix \<Rightarrow> nat option list" where
  "mat_ptrs m = [mat_values m, mat_tmp1 m, mat_tmp2 m]"

definition mat_allocated :: "store \<Rightarrow> matrix \<Rightarrow> bool" where
  "mat_allocated st m =
     (\<forall>p \<in> set (mat_ptrs m). \<exists>a. p = Some a \<and> a < length (st_vectors st) \<and>
        vec_allocated (st_scalars st) (st_vectors st ! a))"

section \<open>Properties\<close>

subsection \<open>The index inverse of the matrix\<close>

text \<open>
  C9 (the code does not do this). The claim: for every sparse matrix and all
  \<open>0 \<le> i < rows\<close>, \<open>0 \<le> j < cols\<close>, \<open>ij (index (i, j)) = (i, j)\<close>. On the 2 x 2 matrix
  of \<^verbatim>\<open>NULL_MATRIX(2, 2)\<close> the element (0, 1) lies at backing index 1, and \<open>ij\<close>
  maps 1 to (1, 0): the non-transposed branch divides by \<^verbatim>\<open>rowMax\<close> and returns
  remainder and quotient in the order of a column-major layout, while \<open>index\<close> lays the
  matrix out row-major.
\<close>

theorem ij_index_swapped_2x2:
  "(case NULL_MATRIX 2 2 empty_store of Panic \<Rightarrow> False
    | Ok (m, st) \<Rightarrow> index m 0 1 = Ok 1 \<and> ij m 1 = Ok (1, 0))"
  by code_simp

subsection \<open>The clone of the index set\<close>

text \<open>
  C8 (as stated it fails). The claim: the clone of an index set has the values and the
  sortedness flag of the original. \<^verbatim>\<open>INDEX_SLICE.clone\<close> starts from the zero value
  and copies the values only, so the clone of a structure marked sorted is not marked
  sorted.
\<close>

theorem INDEX_SLICE_clone_drops_flag:
  "is_isSorted (INDEX_SLICE_clone \<lparr> is_values = [1, 2], is_isSorted = True \<rparr>)
     \<noteq> is_isSorted \<lparr> is_values = [1, 2], is_isSorted = True \<rparr>"
  by (simp add: INDEX_SLICE_clone_def INDEX_SLICE_zero_def)

text \<open>
  C8 (amended). The clone of an index set has the values of the original, and its
  sortedness flag is false whatever the flag of the original is.
\<close>

theorem INDEX_SLICE_clone_values_unsorted:
  "is_values (INDEX_SLICE_clone obj) = is_values obj \<and>
   is_isSorted (INDEX_SLICE_clone obj) = False"
  by (simp add: INDEX_SLICE_clone_def INDEX_SLICE_zero_def)

subsection \<open>Symmetry test\<close>

text \<open>
  C10. \<^verbatim>\<open>IsSymmetric\<close> returns the same result, and leaves the same store, for any two
  values of its argument \<^verbatim>\<open>epsilon\<close>: the elements are compared with the fixed
  tolerance \<open>1e-12\<close>. A matrix that is not square yields false.
\<close>

theorem IsSymmetric_ignores_epsilon:
  "IsSymmetric equals m e1 st = IsSymmetric equals m e2 st \<and>
   (mat_rows m \<noteq> mat_cols m \<longrightarrow> IsSymmetric equals m e1 st = Ok (False, st))"
  by (simp add: IsSymmetric_def)

theorem IsSymmetric_ignores_epsilon_witness:
  "(case NULL_MATRIX 1 2 empty_store of Panic \<Rightarrow> False
    | Ok (m, st) \<Rightarrow>
        mat_rows m \<noteq> mat_cols m \<and>
        IsSymmetric close_values m (1 / 2) st = IsSymmetric close_values m 0 st \<and>
        IsSymmetric close_values m (1 / 2) st = Ok (False, st))"
proof -
  let ?m = "\<lparr>mat_values = Some 0, mat_rows = 1, mat_cols = 2, mat_rowOffset = 0,
        mat_rowMax = 1, mat_colOffset = 0, mat_colMax = 2,
        mat_transposed = False, mat_tmp1 = Some 1, mat_tmp2 = Some 2\<rparr>"
  let ?st = "\<lparr>st_vectors =
      [\<lparr>vec_index = \<lparr>idx_values = [], idx_sorted = False\<rparr>, vec_values = [], vec_n = 2\<rparr>,
       \<lparr>vec_index = \<lparr>idx_values = [], idx_sorted = False\<rparr>, vec_values = [], vec_n = 1\<rparr>,
       \<lparr>vec_index = \<lparr>idx_values = [], idx_sorted = False\<rparr>, vec_values = [], vec_n = 2\<rparr>],
      st_scalars = []\<rparr>"
  have new: "NULL_MATRIX 1 2 empty_store = Ok (?m, ?st)"
    by code_simp
  have ne: "mat_rows ?m \<noteq> mat_cols ?m"
    by simp
  from ne IsSymmetric_ignores_epsilon [of close_values ?m "1 / 2" ?st 0]
  have th: "IsSymmetric close_values ?m (1 / 2) ?st = IsSymmetric close_values ?m 0 ?st \<and>
            IsSymmetric close_values ?m (1 / 2) ?st = Ok (False, ?st)"
    by blast
  show ?thesis
    unfolding new res.case prod.case using ne th by blast
qed

subsection \<open>In-place transposition\<close>

lemma Tip_cycle_last:
  "Tip_cycle 1 2 1 1 (replicate 2 False) v = Some (Ok ([False, True], Vector_Swap v 1 1))"
  by (subst Tip_cycle.simps) (simp add: numeral_2_eq_2)

lemma upto_1_1: "[1 .. 2 - 1] = [1::int]"
  by (simp add: upto.simps)

text \<open>
  C3 (the code does not do this). The claim: after \<^verbatim>\<open>Tip()\<close> the matrix has the
  dimensions cols x rows and its element (i, j) is the element (j, i) of before, as in
  the view \<^verbatim>\<open>T()\<close>. Take the 1 x 2 matrix with the single entry 5 at (0, 0). Its
  element (0, 1), which is the element (1, 0) of \<^verbatim>\<open>T()\<close>, reads 0. \<^verbatim>\<open>Tip\<close> exchanges
  backing positions with \<^verbatim>\<open>Swap\<close>, which reads the missing key 1 as \<^verbatim>\<open>nil\<close> and
  stores that \<^verbatim>\<open>nil\<close> in the map. After \<^verbatim>\<open>Tip\<close> the matrix is 2 x 1, its element
  (1, 0) is a stored nil scalar, and reading its value panics.
\<close>

theorem Tip_stores_nil_1x2:
  "(case NEW_MATRIX 1 2 [0] [0] [5] empty_store of Panic \<Rightarrow> False
    | Ok (m, st) \<Rightarrow>
        (case Matrix_Tip m st of
           Some (Ok (m', st')) \<Rightarrow>
             Matrix_ValueAt m 0 1 st = Ok 0 \<and>
             Matrix_ValueAt (Matrix_T m) 1 0 st = Ok 0 \<and>
             mat_rows m' = 2 \<and> mat_cols m' = 1 \<and>
             Matrix_ConstAt m' 1 0 st' = Ok (Stored None) \<and>
             Matrix_ValueAt m' 1 0 st' = Panic
         | _ \<Rightarrow> False))"
proof -
  let ?m = "\<lparr>mat_values = Some 0, mat_rows = 1, mat_cols = 2, mat_rowOffset = 0,
        mat_rowMax = 1, mat_colOffset = 0, mat_colMax = 2,
        mat_transposed = False, mat_tmp1 = Some 1, mat_tmp2 = Some 2\<rparr>"
  let ?s = "\<lparr>sc_value = 5, sc_order = 0, sc_derivative = [], sc_hessian = []\<rparr>"
  let ?t1 = "\<lparr>vec_index = \<lparr>idx_values = [], idx_sorted = False\<rparr>, vec_values = [], vec_n = 1\<rparr>"
  let ?t2 = "\<lparr>vec_index = \<lparr>idx_values = [], idx_sorted = False\<rparr>, vec_values = [], vec_n = 2\<rparr>"
  let ?v = "\<lparr>vec_index = \<lparr>idx_values = [0], idx_sorted = False\<rparr>,
            vec_values = [(0, Some 0)], vec_n = 2\<rparr>"
  let ?st = "\<lparr>st_vectors = [?v, ?t1, ?t2], st_scalars = [?s]\<rparr>"
  let ?m' = "\<lparr>mat_values = Some 0, mat_rows = 2, mat_cols = 1, mat_rowOffset = 0,
        mat_rowMax = 2, mat_colOffset = 0, mat_colMax = 1,
        mat_transposed = False, mat_tmp1 = Some 2, mat_tmp2 = Some 1\<rparr>"
  let ?v' = "\<lparr>vec_index = \<lparr>idx_values = [0], idx_sorted = False\<rparr>,
            vec_values = [(0, Some 0), (1, None)], vec_n = 2\<rparr>"
  let ?st' = "\<lparr>st_vectors = [?v', ?t1, ?t2], st_scalars = [?s]\<rparr>"
  have new: "NEW_MATRIX 1 2 [0] [0] [5] empty_store = Ok (?m, ?st)"
    by code_simp
  have tip: "Matrix_Tip ?m ?st = Some (Ok (?m', ?st'))"
    by (simp add: Matrix_Tip_def vector_at_def Dim_def upto_1_1 Tip_cycle_last
                  Vector_Swap_def lookup_def set_vector_def)
  have before: "Matrix_ValueAt ?m 0 1 ?st = Ok 0" "Matrix_ValueAt (Matrix_T ?m) 1 0 ?st = Ok 0"
    by code_simp+
  have after: "Matrix_ConstAt ?m' 1 0 ?st' = Ok (Stored None)" "Matrix_ValueAt ?m' 1 0 ?st' = Panic"
    by code_simp+
  show ?thesis
    by (simp only: new res.case prod.case tip option.case before after) simp
qed

subsection \<open>Pruning of structural zeros\<close>

text \<open>
  C4 (the code does not do this). The claim: after an occupied entry is set to zero, one
  full iteration removes it from the map and from the index. Take the vector of
  dimension 5 with the single entry 3 at index 2 and set that entry to 0, so that
  \<^verbatim>\<open>nullScalar\<close> holds of it. \<^verbatim>\<open>ITERATOR()\<close> starts at the first index without
  looking at its scalar, and \<^verbatim>\<open>Next\<close> tests only the positions it moves to: the entry
  at the first occupied index is never tested. After the full iteration the map still
  has its one entry and the index still holds 2.
\<close>

theorem first_zero_entry_not_pruned:
  "(case NEW_VECTOR [2] [3] 5 [] of Panic \<Rightarrow> False
    | Ok (v, h) \<Rightarrow>
        (case SetValue (lookup (vec_values v) 2) 0 h of Panic \<Rightarrow> False
         | Ok h0 \<Rightarrow>
             nullScalar h0 (lookup (vec_values v) 2) = Ok True \<and>
             (case full_iteration h0 v of Panic \<Rightarrow> False
              | Ok v' \<Rightarrow> length (vec_values v') = length (vec_values v) \<and>
                         map_of (vec_values v') 2 \<noteq> None \<and>
                         2 \<in> set (idx_values (vec_index v')))))"
  by code_simp

subsection \<open>Permutation of a vector\<close>

lemma Permute_loop_error:
  "fst (Permute_loop ps i obj) \<noteq> None \<longleftrightarrow> (\<exists>p\<in>set ps. p < 0 \<or> p \<ge> vec_n obj)"
  by (induction ps arbitrary: i obj) (auto simp: Let_def)

lemma Chan_Permute_loop_error:
  "fst (Chan_Permute_loop ps i obj) \<noteq> None \<longleftrightarrow> (\<exists>p\<in>set ps. p < 0 \<or> p \<ge> cv_n obj)"
  by (induction ps arbitrary: i obj) (auto simp: Let_def)

lemma Vector_Permute_error:
  "fst (Vector_Permute obj perm) \<noteq> None \<longleftrightarrow>
      int (length perm) \<noteq> vec_n obj \<or> (\<exists>p\<in>set perm. p < 0 \<or> p \<ge> vec_n obj)"
  using Permute_loop_error[of perm 0 obj]
  by (auto simp: Vector_Permute_def split: prod.splits option.splits)

lemma Chan_Permute_error:
  "fst (Chan_Permute obj perm) \<noteq> None \<longleftrightarrow>
      int (length perm) \<noteq> cv_n obj \<or> (\<exists>p\<in>set perm. p < 0 \<or> p \<ge> cv_n obj)"
  using Chan_Permute_loop_error[of perm 0 obj]
  by (auto simp: Chan_Permute_def)

text \<open>
  C5 (as stated it fails). The claim: \<^verbatim>\<open>Permute\<close> returns an error whenever the array
  has the wrong length, holds a value outside \<open>[0, dim)\<close>, or is not a bijection, an
  array that repeats a value in range being rejected; and on success the vector holds the
  permuted entries. First, \<^verbatim>\<open>Permute\<close> checks the length and the range of every
  element and nothing else: on a vector of dimension 2 the array \<open>[0, 0]\<close> is accepted.
  Second, the loop exchanges the positions \<open>i\<close> and \<open>pi[i]\<close> once for every
  \<open>pi[i] > i\<close>, which permutes the entries by \<open>pi\<close> only when \<open>pi\<close> is its own
  inverse: for the bijection \<open>[2, 0, 1]\<close> the vector \<open>[10, 20, 30]\<close> becomes
  \<open>[30, 20, 10]\<close>. The entries permuted by \<open>pi\<close> are \<open>[30, 10, 20]\<close> when the new entry
  at \<open>i\<close> is the old one at \<open>pi[i]\<close>, and \<open>[20, 30, 10]\<close> when the new entry at \<open>pi[i]\<close>
  is the old one at \<open>i\<close>; the result is neither.
\<close>

theorem Permute_accepts_repeated_value:
  "(case NEW_VECTOR [0, 1] [1, 2] 2 [] of Panic \<Rightarrow> False
    | Ok (v, h) \<Rightarrow> \<not> distinct [0, 0 :: int] \<and> fst (Vector_Permute v [0, 0]) = None) \<and>
   (case NEW_VECTOR [0, 1, 2] [10, 20, 30] 3 [] of Panic \<Rightarrow> False
    | Ok (v, h) \<Rightarrow>
        (case Vector_Permute v [2, 0, 1] of
           (e, v') \<Rightarrow>
             e = None \<and>
             map (\<lambda>i. Vector_ValueAt v i h) [0, 1, 2] = [Ok 10, Ok 20, Ok 30] \<and>
             map (\<lambda>i. Vector_ValueAt v' i h) [0, 1, 2] = [Ok 30, Ok 20, Ok 10] \<and>
             map (\<lambda>i. Vector_ValueAt v ([2, 0, 1] ! nat i) h) [0, 1, 2] = [Ok 30, Ok 10, Ok 20] \<and>
             map (\<lambda>i. Vector_ValueAt v' ([2, 0, 1] ! nat i) h) [0, 1, 2] = [Ok 10, Ok 30, Ok 20]))"
  by code_simp

text \<open>
  The channel variant runs the same loop: the same array on the same entries gives the
  same map. In the iterator variant the index of the vector is then rebuilt from the
  elements of the array, not from the keys of the map: after \<open>[2, 1, 0]\<close> on the vector of
  dimension 3 with the one entry 5 at index 0, the map has the key 2 and the index holds
  2, 1 and 0, and a loop over the iterator of the vector panics at the index 1.
\<close>

lemma Chan_Permute_cycle:
  "Chan_Permute \<lparr>cv_indices = INDEX_SLICE_zero,
                  cv_values = [(0, Some 0), (1, Some 1), (2, Some 2)], cv_n = 3\<rparr> [2, 0, 1]
     = (None, \<lparr>cv_indices = INDEX_SLICE_zero,
                cv_values = [(0, Some 2), (1, Some 1), (2, Some 0)], cv_n = 3\<rparr>)"
  by code_simp

lemma Permute_index_from_array:
  "(case NEW_VECTOR [0] [5] 3 [] of Panic \<Rightarrow> False
    | Ok (v, h) \<Rightarrow>
        (case Vector_Permute v [2, 1, 0] of
           (e, v') \<Rightarrow>
             e = None \<and> map fst (vec_values v') = [2] \<and>
             idx_values (vec_index v') = [2, 1, 0] \<and>
             full_iteration h v' = Panic))"
  by code_simp

text \<open>
  C5 (amended). \<^verbatim>\<open>Permute\<close>, in both variants of the vector, returns an error exactly
  when the array has a length other than the dimension or holds a value outside
  \<open>[0, dim)\<close>; it does not test that the array is a bijection.
\<close>

theorem Permute_fails_iff:
  "(fst (Vector_Permute obj perm) \<noteq> None \<longleftrightarrow>
      int (length perm) \<noteq> vec_n obj \<or> (\<exists>p\<in>set perm. p < 0 \<or> p \<ge> vec_n obj)) \<and>
   (fst (Chan_Permute cobj perm) \<noteq> None \<longleftrightarrow>
      int (length perm) \<noteq> cv_n cobj \<or> (\<exists>p\<in>set perm. p < 0 \<or> p \<ge> cv_n cobj))"
  using Vector_Permute_error[of obj perm] Chan_Permute_error[of cobj perm]
  by blast

theorem Permute_fails_iff_witness:
  "(case NEW_VECTOR [0, 1] [1, 2] 2 [] of Panic \<Rightarrow> False
    | Ok (v, h) \<Rightarrow>
        fst (Vector_Permute v [2, 0]) \<noteq> None \<and>
        fst (Vector_Permute v [1, 0, 1]) \<noteq> None \<and>
        fst (Vector_Permute v [1, 0]) = None \<and>
        fst (Vector_Permute v [0, 0]) = None) \<and>
   fst (Chan_Permute (Chan_NIL_VECTOR 2) [0, - 1]) \<noteq> None \<and>
   fst (Chan_Permute (Chan_NIL_VECTOR 2) [1, 1]) = None"
proof -
  let ?v = "\<lparr>vec_index = \<lparr>idx_values = [0, 1], idx_sorted = False\<rparr>,
             vec_values = [(0, Some 0), (1, Some 1)], vec_n = 2\<rparr>"
  let ?h = "[\<lparr>sc_value = 1, sc_order = 0, sc_derivative = [], sc_hessian = []\<rparr>,
             \<lparr>sc_value = 2, sc_order = 0, sc_derivative = [], sc_hessian = []\<rparr>]"
  have new: "NEW_VECTOR [0, 1] [1, 2] 2 [] = Ok (?v, ?h)"
    by code_simp
  have n: "cv_n (Chan_NIL_VECTOR 2) = 2"
    by (simp add: Chan_NIL_VECTOR_def)
  from Permute_fails_iff [of ?v "[2, 0]" "Chan_NIL_VECTOR 2"] n
  have 1: "fst (Vector_Permute ?v [2, 0]) \<noteq> None"
    by simp
  from Permute_fails_iff [of ?v "[1, 0, 1]" "Chan_NIL_VECTOR 2"]
  have 2: "fst (Vector_Permute ?v [1, 0, 1]) \<noteq> None"
    by simp
  from Permute_fails_iff [of ?v "[1, 0]" "Chan_NIL_VECTOR 2"]
  have 3: "fst (Vector_Permute ?v [1, 0]) = None"
    by simp
  from Permute_fails_iff [of ?v "[0, 0]" "Chan_NIL_VECTOR 2"]
  have 4: "fst (Vector_Permute ?v [0, 0]) = None"
    by simp
  from Permute_fails_iff [of ?v "[0, - 1]" "Chan_NIL_VECTOR 2"] n
  have 5: "fst (Chan_Permute (Chan_NIL_VECTOR 2) [0, - 1]) \<noteq> None"
    by simp
  from Permute_fails_iff [of ?v "[1, 1]" "Chan_NIL_VECTOR 2"] n
  have 6: "fst (Chan_Permute (Chan_NIL_VECTOR 2) [1, 1]) = None"
    by simp
  show ?thesis
    unfolding new res.case prod.case using 1 2 3 4 5 6 by blast
qed

subsection \<open>Failed import\<close>





lemma Vector_Import_error:
  "Vector_Import pI pF obj lines h = Ok (Some e, obj', h') \<Longrightarrow> obj' = obj \<and> h' = h"
  by (auto simp: Vector_Import_def split: option.splits res.splits prod.splits)



lemma Matrix_Import_error:
  "Matrix_Import pI pF m lines st = Ok (Some e, m', st') \<Longrightarrow> m' = m \<and> st' = st"
  by (auto simp: Matrix_Import_def
           split: option.splits res.splits prod.splits sum.splits list.splits)
















text \<open>
  In the iterator variant the test \<^verbatim>\<open>len(obj.values) != 0\<close> reads the map of the
  target, which the loop never changes: an import into a vector that has an entry
  returns the error at the first line with a token, whatever the tokens are.
\<close>

lemma Import_into_occupied_vector:
  "vec_values obj \<noteq> [] \<Longrightarrow> list_ex (\<lambda>l. Fields l \<noteq> []) lines \<Longrightarrow>
     Vector_Import pI pF obj lines h = Ok (Some (Error ''invalid sparse table''), obj, h)"
proof -
  assume occ: "vec_values obj \<noteq> []" and ne: "list_ex (\<lambda>l. Fields l \<noteq> []) lines"
  have "Import_lines pI pF obj lines acc = None" for acc
    using ne occ by (induction lines arbitrary: acc) auto
  then show ?thesis by (simp add: Vector_Import_def)
qed


subsection \<open>Slice of a vector\<close>

lemma indexSort_sorted:
  "(idx_sorted x \<longrightarrow> sorted (idx_values x)) \<Longrightarrow> sorted (idx_values (indexSort x))"
  by (simp add: indexSort_def)

lemma indexSort_set: "set (idx_values (indexSort x)) = set (idx_values x)"
  by (simp add: indexSort_def)

lemma indexSort_distinct: "distinct (idx_values (indexSort x)) = distinct (idx_values x)"
  by (simp add: indexSort_def)

lemma Slice_loop_n: "vec_n (Slice_loop it i j obj r) = vec_n r"
  by (induction it arbitrary: r) auto

lemma Slice_loop_map:
  "sorted it \<Longrightarrow>
     map_of (vec_values (Slice_loop it i j obj r)) k =
       (if k + i \<in> set it \<and> k + i < j then Some (lookup (vec_values obj) (k + i))
        else map_of (vec_values r) k)"
proof (induction it arbitrary: r)
  case Nil
  then show ?case by simp
next
  case (Cons a it)
  show ?case
  proof (cases "a \<ge> j")
    case True
    with Cons.prems have "\<forall>x\<in>set (a # it). x \<ge> j" by auto
    with True show ?thesis by auto
  next
    case False
    from Cons.prems have "sorted it" by simp
    from Cons.IH[OF this] False show ?thesis
      by (auto simp: update_conv')
  qed
qed

lemma map_of_key_iff: "map_of al k \<noteq> None \<longleftrightarrow> k \<in> fst ` set al"
  by (simp add: map_of_eq_None_iff)

lemma Vector_Slice_map:
  assumes "vec_inv obj"
  shows "map_of (vec_values (fst (Vector_Slice obj i j))) k =
          (if 0 \<le> k \<and> k < j - i then map_of (vec_values obj) (k + i) else None)"
proof -
  let ?it = "filter (\<lambda>k. i \<le> k) (idx_values (indexSort (vec_index obj)))"
  from assms have "sorted (idx_values (indexSort (vec_index obj)))"
    by (auto simp: vec_inv_def intro: indexSort_sorted)
  then have s: "sorted ?it"
    by (rule sorted_wrt_filter)
  have set: "set ?it = {k \<in> fst ` set (vec_values obj). i \<le> k}"
    using assms by (auto simp: vec_inv_def indexSort_set)
  have "map_of (vec_values (fst (Vector_Slice obj i j))) k =
      (if k + i \<in> set ?it \<and> k + i < j then Some (lookup (vec_values obj) (k + i)) else None)"
    using Slice_loop_map[OF s, of i j obj "NIL_VECTOR (j - i)" k]
    by (simp add: Vector_Slice_def indexIteratorFrom_def NIL_VECTOR_def)
  also have "\<dots> = (if 0 \<le> k \<and> k < j - i then map_of (vec_values obj) (k + i) else None)"
    unfolding set using map_of_key_iff[of "vec_values obj" "k + i"]
    by (auto simp: lookup_def split: option.splits)
  finally show ?thesis .
qed

lemma Vector_Slice_Dim: "Dim (fst (Vector_Slice obj i j)) = j - i"
  by (simp add: Vector_Slice_def indexIteratorFrom_def Dim_def Slice_loop_n NIL_VECTOR_def)

lemma Vector_Slice_receiver:
  "vec_values (snd (Vector_Slice obj i j)) = vec_values obj \<and>
   vec_n (snd (Vector_Slice obj i j)) = vec_n obj"
  by (simp add: Vector_Slice_def indexIteratorFrom_def)

lemma SetValue_GetValue: "SetValue p x h = Ok h' \<Longrightarrow> GetValue h' p = Ok x"
  by (auto simp: SetValue_def GetValue_def deref_def split: option.splits if_splits)

lemma Chan_Slice_loop_n: "cv_n (Chan_Slice_loop m i j r) = cv_n r"
  by (induction m i j r rule: Chan_Slice_loop.induct) auto

lemma Chan_Slice_loop_map:
  "distinct (map fst m) \<Longrightarrow>
     map_of (cv_values (Chan_Slice_loop m i j r)) k =
       (if i \<le> k + i \<and> k + i < j \<and> map_of m (k + i) \<noteq> None then map_of m (k + i)
        else map_of (cv_values r) k)"
proof (induction m i j r rule: Chan_Slice_loop.induct)
  case (1 i j r)
  then show ?case by simp
next
  case (2 a v m i j r)
  then show ?case
    by (auto simp: update_conv' map_of_eq_None_iff image_iff)
qed

lemma Chan_Slice_map:
  "distinct (map fst (cv_values cobj)) \<Longrightarrow>
     map_of (cv_values (Chan_Slice cobj i j)) k =
       (if 0 \<le> k \<and> k < j - i then map_of (cv_values cobj) (k + i) else None)"
  using Chan_Slice_loop_map[of "cv_values cobj" i j "Chan_NIL_VECTOR (j - i)" k]
  by (cases "map_of (cv_values cobj) (k + i)") (auto simp: Chan_Slice_def Chan_NIL_VECTOR_def)

text \<open>
  C6 (as stated it fails). The claim: the entries of \<^verbatim>\<open>v.Slice(from, to)\<close> are copies
  of the entries of \<open>v\<close>, so that a change of a scalar of the slice does not change \<open>v\<close>.
  \<^verbatim>\<open>Slice\<close> stores the pointers of \<open>v\<close> in the new map. Take the vector with the
  entries 5 at index 1 and 7 at index 3 and its slice from 1 to 3: after the value 9 is
  set through the entry 0 of the slice, the vector reads 9 at index 1.
\<close>

theorem Slice_shares_scalars:
  "(case NEW_VECTOR [1, 3] [5, 7] 4 [] of Panic \<Rightarrow> False
    | Ok (v, h) \<Rightarrow>
        (case Vector_Slice v 1 3 of
           (r, v') \<Rightarrow>
             (case SetValue (lookup (vec_values r) 0) 9 h of Panic \<Rightarrow> False
              | Ok h' \<Rightarrow> Vector_ValueAt v' 1 h = Ok 5 \<and> Vector_ValueAt v' 1 h' = Ok 9)))"
  by code_simp

text \<open>
  C6 (amended). For a sparse vector \<open>v\<close> and \<open>0 \<le> from \<le> to \<le> dim\<close>,
  \<^verbatim>\<open>v.Slice(from, to)\<close> returns a new vector of dimension \<open>to - from\<close> whose entry at
  \<open>k - from\<close>, for each occupied index \<open>k\<close> of \<open>v\<close> with \<open>from \<le> k < to\<close>, is the stored
  scalar of \<open>v\<close> at \<open>k\<close> itself (the same pointer), and which has no other entry; a value
  set through an entry of the slice is the value that \<open>v\<close> reads at the index of that
  entry. The entries of \<open>v\<close> are unchanged. The same holds of the map of the channel
  variant.
\<close>

theorem Slice_entries:
  "vec_inv obj \<and> distinct (map fst (cv_values cobj)) \<and> 0 \<le> i \<and> i \<le> j \<and> j \<le> Dim obj \<longrightarrow>
     Dim (fst (Vector_Slice obj i j)) = j - i \<and>
     map_of (vec_values (fst (Vector_Slice obj i j))) k =
       (if 0 \<le> k \<and> k < j - i then map_of (vec_values obj) (k + i) else None) \<and>
     (map_of (vec_values (fst (Vector_Slice obj i j))) k = Some p \<and> SetValue p x h = Ok h'
        \<longrightarrow> Vector_ValueAt obj (k + i) h' = Ok x) \<and>
     vec_values (snd (Vector_Slice obj i j)) = vec_values obj \<and>
     cv_n (Chan_Slice cobj i j) = j - i \<and>
     map_of (cv_values (Chan_Slice cobj i j)) k =
       (if 0 \<le> k \<and> k < j - i then map_of (cv_values cobj) (k + i) else None)"
proof (intro impI, elim conjE)
  assume inv: "vec_inv obj" and d: "distinct (map fst (cv_values cobj))"
    and b: "0 \<le> i" "i \<le> j" "j \<le> Dim obj"
  note m = Vector_Slice_map[OF inv, of i j k]
  have shared: "map_of (vec_values (fst (Vector_Slice obj i j))) k = Some p \<and> SetValue p x h = Ok h'
        \<longrightarrow> Vector_ValueAt obj (k + i) h' = Ok x"
  proof (intro impI, elim conjE)
    assume sp: "map_of (vec_values (fst (Vector_Slice obj i j))) k = Some p"
      and sv: "SetValue p x h = Ok h'"
    from sp m have k: "0 \<le> k" "k < j - i" and e: "map_of (vec_values obj) (k + i) = Some p"
      by (auto split: if_splits)
    from k b e SetValue_GetValue[OF sv] show "Vector_ValueAt obj (k + i) h' = Ok x"
      by (simp add: Vector_ValueAt_def)
  qed
  show "Dim (fst (Vector_Slice obj i j)) = j - i \<and>
     map_of (vec_values (fst (Vector_Slice obj i j))) k =
       (if 0 \<le> k \<and> k < j - i then map_of (vec_values obj) (k + i) else None) \<and>
     (map_of (vec_values (fst (Vector_Slice obj i j))) k = Some p \<and> SetValue p x h = Ok h'
        \<longrightarrow> Vector_ValueAt obj (k + i) h' = Ok x) \<and>
     vec_values (snd (Vector_Slice obj i j)) = vec_values obj \<and>
     cv_n (Chan_Slice cobj i j) = j - i \<and>
     map_of (cv_values (Chan_Slice cobj i j)) k =
       (if 0 \<le> k \<and> k < j - i then map_of (cv_values cobj) (k + i) else None)"
    using m shared Vector_Slice_Dim[of obj i j] Vector_Slice_receiver[of obj i j]
      Chan_Slice_map[OF d, of i j k] Chan_Slice_loop_n[of "cv_values cobj" i j "Chan_NIL_VECTOR (j - i)"]
    by (simp add: Chan_Slice_def Chan_NIL_VECTOR_def)
qed


theorem Slice_entries_witness:
  "vec_inv \<lparr>vec_index = \<lparr>idx_values = [1, 3], idx_sorted = False\<rparr>,
            vec_values = [(1, Some 0), (3, Some 1)], vec_n = 4\<rparr> \<and>
   distinct (map fst [(1 :: int, Some (0 :: nat)), (3, Some 1)]) \<and>
   map_of (vec_values (fst (Vector_Slice
       \<lparr>vec_index = \<lparr>idx_values = [1, 3], idx_sorted = False\<rparr>,
         vec_values = [(1, Some 0), (3, Some 1)], vec_n = 4\<rparr> 1 3))) 0 = Some (Some 0) \<and>
   Vector_ValueAt \<lparr>vec_index = \<lparr>idx_values = [1, 3], idx_sorted = False\<rparr>,
         vec_values = [(1, Some 0), (3, Some 1)], vec_n = 4\<rparr> 1
       [\<lparr>sc_value = 9, sc_order = 0, sc_derivative = [], sc_hessian = []\<rparr>,
        \<lparr>sc_value = 7, sc_order = 0, sc_derivative = [], sc_hessian = []\<rparr>] = Ok 9 \<and>
   map_of (cv_values (Chan_Slice
       \<lparr>cv_indices = INDEX_SLICE_zero, cv_values = [(1, Some 0), (3, Some 1)], cv_n = 4\<rparr> 1 3)) 0
     = Some (Some 0)"
proof -
  let ?V = "\<lparr>vec_index = \<lparr>idx_values = [1, 3], idx_sorted = False\<rparr>,
            vec_values = [(1, Some 0), (3, Some 1)], vec_n = 4\<rparr>"
  let ?C = "\<lparr>cv_indices = INDEX_SLICE_zero, cv_values = [(1, Some 0), (3, Some 1)], cv_n = 4\<rparr>"
  let ?H = "[\<lparr>sc_value = 5, sc_order = 0, sc_derivative = [], sc_hessian = []\<rparr>,
             \<lparr>sc_value = 7, sc_order = 0, sc_derivative = [], sc_hessian = []\<rparr>]"
  let ?H' = "[\<lparr>sc_value = 9, sc_order = 0, sc_derivative = [], sc_hessian = []\<rparr>,
              \<lparr>sc_value = 7, sc_order = 0, sc_derivative = [], sc_hessian = []\<rparr>]"
  have inv: "vec_inv ?V"
    by (simp add: vec_inv_def)
  have d: "distinct (map fst (cv_values ?C))"
    by simp
  have b: "(0 :: int) \<le> 1 \<and> (1 :: int) \<le> 3 \<and> 3 \<le> Dim ?V"
    by (simp add: Dim_def)
  have sv: "SetValue (Some 0) 9 ?H = Ok ?H'"
    by (simp add: SetValue_def)
  note th = Slice_entries [of ?V ?C 1 3 0 "Some 0" 9 ?H ?H']
  from th inv d b have 1: "map_of (vec_values (fst (Vector_Slice ?V 1 3))) 0 = Some (Some 0)"
    by simp
  from th inv d b 1 sv have 2: "Vector_ValueAt ?V 1 ?H' = Ok 9"
    by simp
  from th inv d b have 3: "map_of (cv_values (Chan_Slice ?C 1 3)) 0 = Some (Some 0)"
    by simp
  from inv d 1 2 3 show ?thesis
    by simp
qed

subsection \<open>Clone\<close>

text \<open>
  C7 (the code does not do this). The claim: \<^verbatim>\<open>Clone()\<close> of every sparse matrix
  produces a deep copy. \<^verbatim>\<open>NIL_MATRIX(1, 1)\<close> builds a matrix without calling
  \<^verbatim>\<open>initTmp\<close>, so its scratch vectors \<^verbatim>\<open>tmp1\<close> and \<^verbatim>\<open>tmp2\<close> are \<^verbatim>\<open>nil\<close>. The
  matrix can be read (its element is 0), but \<^verbatim>\<open>Clone\<close> calls \<^verbatim>\<open>matrix.tmp1.Clone()\<close>,
  which reads the dimension of a \<^verbatim>\<open>nil\<close> vector: the call panics and produces no copy.
  \<^verbatim>\<open>initTmp\<close> of the same file tests \<^verbatim>\<open>matrix.tmp1 == nil\<close> before it reads the
  scratch vector; \<^verbatim>\<open>Clone\<close> does not.
\<close>

theorem Clone_panics_without_scratch_vectors:
  "(case NIL_MATRIX 1 1 empty_store of
      (m, st) \<Rightarrow>
        mat_tmp1 m = None \<and> mat_tmp2 m = None \<and>
        Matrix_ValueAt m 0 0 st = Ok 0 \<and>
        Matrix_Clone m st = Panic)"
  by code_simp

lemma Clone_loop_Ok:
  assumes "distinct (map fst m)"
    and "\<forall>(k, p) \<in> set m. \<exists>b. p = Some b \<and> b < length h"
  shows "\<exists>r' ys. Clone_loop m r h = Ok (r', h @ ys) \<and> length ys = length m \<and>
           vec_n r' = vec_n r \<and> vec_index r' = vec_index r \<and>
           (\<forall>k. case map_of m k of
                  None \<Rightarrow> map_of (vec_values r') k = map_of (vec_values r) k
                | Some v \<Rightarrow> \<exists>a b. v = Some b \<and> map_of (vec_values r') k = Some (Some a) \<and>
                              length h \<le> a \<and> a < length h + length m \<and> (h @ ys) ! a = h ! b)"
  using assms
proof (induction m arbitrary: r h)
  case Nil
  then show ?case by simp
next
  case (Cons kv m)
  obtain i v where kv: "kv = (i, v)" by (cases kv)
  from Cons.prems kv obtain b where v: "v = Some b" and b: "b < length h" by auto
  let ?h1 = "h @ [h ! b]"
  let ?r1 = "r\<lparr> vec_values := AList.update i (Some (length h)) (vec_values r) \<rparr>"
  have sc: "Scalar_Clone v h = Ok (Some (length h), ?h1)"
    using v b by (simp add: Scalar_Clone_def deref_def)
  from Cons.prems kv have d: "distinct (map fst m)" and ni: "i \<notin> fst ` set m" by auto
  from Cons.prems have al: "\<forall>(k, p) \<in> set m. \<exists>b. p = Some b \<and> b < length ?h1"
    by fastforce
  from Cons.IH[OF d al, of ?r1] obtain r' ys where
    cl: "Clone_loop m ?r1 ?h1 = Ok (r', ?h1 @ ys)" and len: "length ys = length m"
    and n: "vec_n r' = vec_n r" and ix: "vec_index r' = vec_index r"
    and mp: "\<forall>k. case map_of m k of
                  None \<Rightarrow> map_of (vec_values r') k = map_of (vec_values ?r1) k
                | Some v \<Rightarrow> \<exists>a b. v = Some b \<and> map_of (vec_values r') k = Some (Some a) \<and>
                              length ?h1 \<le> a \<and> a < length ?h1 + length m \<and> (?h1 @ ys) ! a = ?h1 ! b"
    by auto
  have al0: "\<forall>(k, p) \<in> set m. \<exists>b. p = Some b \<and> b < length h"
    using Cons.prems by auto
  have res: "Clone_loop (kv # m) r h = Ok (r', h @ (h ! b # ys))"
    using sc cl by (simp add: kv)
  have "\<forall>k. case map_of (kv # m) k of
                  None \<Rightarrow> map_of (vec_values r') k = map_of (vec_values r) k
                | Some v \<Rightarrow> \<exists>a b'. v = Some b' \<and> map_of (vec_values r') k = Some (Some a) \<and>
                              length h \<le> a \<and> a < length h + length (kv # m) \<and>
                              (h @ (h ! b # ys)) ! a = h ! b'"
  proof
    fix k
    show "case map_of (kv # m) k of
                  None \<Rightarrow> map_of (vec_values r') k = map_of (vec_values r) k
                | Some v \<Rightarrow> \<exists>a b'. v = Some b' \<and> map_of (vec_values r') k = Some (Some a) \<and>
                              length h \<le> a \<and> a < length h + length (kv # m) \<and>
                              (h @ (h ! b # ys)) ! a = h ! b'"
    proof (cases "k = i")
      case True
      from ni have "map_of m i = None" by (simp add: map_of_eq_None_iff)
      with mp[rule_format, of i] have "map_of (vec_values r') i = Some (Some (length h))"
        by (simp add: update_conv')
      with True v b show ?thesis
        by (simp add: kv nth_append)
    next
      case False
      show ?thesis
      proof (cases "map_of m k")
        case None
        with mp[rule_format, of k] False show ?thesis
          by (simp add: kv update_conv')
      next
        case (Some p)
        then have "(k, p) \<in> set m" by (rule map_of_SomeD)
        with al0 obtain b' where p: "p = Some b'" and b': "b' < length h" by auto
        from mp[rule_format, of k] Some p obtain a where
          a: "map_of (vec_values r') k = Some (Some a)" "length ?h1 \<le> a"
             "a < length ?h1 + length m" "(?h1 @ ys) ! a = ?h1 ! b'"
          by auto
        from a b' have "(h @ (h ! b # ys)) ! a = h ! b'"
          by (simp add: nth_append)
        with a False Some p show ?thesis
          by (simp add: kv)
      qed
    qed
  qed
  with res len n ix show ?case
    by (intro exI[of _ r'] exI[of _ "h ! b # ys"]) simp
qed


lemma Clone_loop_distinct:
  "distinct (map fst (vec_values r)) \<Longrightarrow> Clone_loop m r h = Ok (r', h') \<Longrightarrow>
     distinct (map fst (vec_values r'))"
proof (induction m arbitrary: r h)
  case Nil
  then show ?case by simp
next
  case (Cons kv m)
  obtain i v where kv: "kv = (i, v)" by (cases kv)
  from Cons.prems(2) kv obtain p h1 where
    "Clone_loop m (r\<lparr> vec_values := AList.update i p (vec_values r) \<rparr>) h1 = Ok (r', h')"
    by (auto split: res.splits)
  from Cons.IH[OF _ this] Cons.prems(1) show ?case
    by (simp add: distinct_update)
qed

lemma same_on_append: "same_on {..<length h} (h @ ys) h'' \<Longrightarrow> same_on {..<length h} h h''"
  by (auto simp: same_on_def nth_append)

lemma Vector_read_frame:
  assumes "vec_allocated h v" "vec_addrs v \<subseteq> A" "same_on A h h''"
  shows "Vector_read v k h'' = Vector_read v k h"
proof (cases "map_of (vec_values v) k")
  case None
  then show ?thesis
    by (simp add: Vector_read_def Vector_ConstAt_def const_scalar_def)
next
  case (Some p)
  then have in_set: "(k, p) \<in> set (vec_values v)" by (rule map_of_SomeD)
  with assms(1) obtain a where p: "p = Some a" and a: "a < length h"
    by (auto simp: vec_allocated_def)
  from in_set p have "a \<in> vec_addrs v" by (auto simp: vec_addrs_def)
  with assms(2,3) a have "a < length h'' \<and> h'' ! a = h ! a"
    by (auto simp: same_on_def)
  with Some p a show ?thesis
    by (simp add: Vector_read_def Vector_ConstAt_def const_scalar_def deref_def)
qed

lemma vec_allocated_addrs: "vec_allocated h v \<Longrightarrow> vec_addrs v \<subseteq> {..<length h}"
  by (auto simp: vec_allocated_def vec_addrs_def)

lemma vec_allocated_append: "vec_allocated h v \<Longrightarrow> vec_allocated (h @ ys) v"
  by (fastforce simp: vec_allocated_def)

lemma Vector_Clone_deep:
  assumes "vec_allocated h obj"
  shows "\<exists>r ys. Vector_Clone obj h = Ok (r, h @ ys) \<and>
           Dim r = Dim obj \<and> vec_index r = vec_index obj \<and>
           vec_allocated (h @ ys) r \<and>
           vec_addrs r \<subseteq> {length h ..< length h + length ys} \<and>
           (\<forall>k. Vector_read r k (h @ ys) = Vector_read obj k h)"
proof -
  let ?m = "vec_values obj"
  from assms have d: "distinct (map fst ?m)"
    and al: "\<forall>(k, p) \<in> set ?m. \<exists>b. p = Some b \<and> b < length h"
    by (auto simp: vec_allocated_def)
  let ?r0 = "NIL_VECTOR (vec_n obj)"
  from Clone_loop_Ok[OF d al, of ?r0] obtain r' ys where
    cl: "Clone_loop ?m ?r0 h = Ok (r', h @ ys)"
    and len: "length ys = length ?m"
    and n0: "vec_n r' = vec_n ?r0"
    and mp0: "\<forall>k. case map_of ?m k of
                  None \<Rightarrow> map_of (vec_values r') k = map_of (vec_values ?r0) k
                | Some v \<Rightarrow> \<exists>a b. v = Some b \<and> map_of (vec_values r') k = Some (Some a) \<and>
                              length h \<le> a \<and> a < length h + length ?m \<and> (h @ ys) ! a = h ! b"
    by blast
  from n0 have n: "vec_n r' = vec_n obj"
    by (simp add: NIL_VECTOR_def)
  have mp: "\<forall>k. case map_of ?m k of
                  None \<Rightarrow> map_of (vec_values r') k = None
                | Some v \<Rightarrow> \<exists>a b. v = Some b \<and> map_of (vec_values r') k = Some (Some a) \<and>
                              length h \<le> a \<and> a < length h + length ?m \<and> (h @ ys) ! a = h ! b"
  proof
    fix k
    from mp0[rule_format, of k]
    show "case map_of ?m k of
                  None \<Rightarrow> map_of (vec_values r') k = None
                | Some v \<Rightarrow> \<exists>a b. v = Some b \<and> map_of (vec_values r') k = Some (Some a) \<and>
                              length h \<le> a \<and> a < length h + length ?m \<and> (h @ ys) ! a = h ! b"
      by (cases "map_of ?m k") (simp_all add: NIL_VECTOR_def)
  qed
  let ?r = "r'\<lparr> vec_index := indexClone (vec_index obj) \<rparr>"
  have res: "Vector_Clone obj h = Ok (?r, h @ ys)"
    using cl by (simp add: Vector_Clone_def)
  have dr: "distinct (map fst (vec_values r'))"
    using Clone_loop_distinct[OF _ cl] by (simp add: NIL_VECTOR_def)
  have fresh: "\<And>k p. (k, p) \<in> set (vec_values r') \<Longrightarrow>
                 \<exists>a. p = Some a \<and> length h \<le> a \<and> a < length h + length ys"
  proof -
    fix k p
    assume "(k, p) \<in> set (vec_values r')"
    with dr have "map_of (vec_values r') k = Some p" by simp
    with mp[rule_format, of k] len show "\<exists>a. p = Some a \<and> length h \<le> a \<and> a < length h + length ys"
      by (cases "map_of ?m k") auto
  qed
  have alloc: "vec_allocated (h @ ys) ?r"
    using dr fresh by (fastforce simp: vec_allocated_def)
  have addrs: "vec_addrs ?r \<subseteq> {length h ..< length h + length ys}"
    using fresh by (fastforce simp: vec_addrs_def)
  have read: "\<forall>k. Vector_read ?r k (h @ ys) = Vector_read obj k h"
  proof
    fix k
    show "Vector_read ?r k (h @ ys) = Vector_read obj k h"
    proof (cases "map_of ?m k")
      case None
      with mp[rule_format, of k] n show ?thesis
        by (simp add: Vector_read_def Vector_ConstAt_def Dim_def const_scalar_def)
    next
      case (Some v)
      with mp[rule_format, of k] len obtain a b where
        "v = Some b" "map_of (vec_values r') k = Some (Some a)"
        "a < length h + length ys" "(h @ ys) ! a = h ! b"
        by auto
      moreover from Some al have "\<exists>b. v = Some b \<and> b < length h"
        by (auto dest: map_of_SomeD)
      ultimately show ?thesis
        using Some n
        by (auto simp: Vector_read_def Vector_ConstAt_def Dim_def const_scalar_def deref_def)
    qed
  qed
  from res n alloc addrs read show ?thesis
    by (intro exI[of _ ?r] exI[of _ ys]) (simp add: Dim_def indexClone_def)
qed


lemma Matrix_read_vector_read:
  "Matrix_read m i j st =
     (case index m i j of Panic \<Rightarrow> Panic | Ok k \<Rightarrow> vector_read st (mat_values m) k)"
  by (simp add: Matrix_read_def Matrix_ConstAt_def vector_read_def Vector_read_def
           split: res.splits)

lemma same_on_prefix: "same_on {..<length h} h (h @ ys)"
  by (simp add: same_on_def nth_append)

lemma Clone_at_deep:
  assumes "a < length vs" "vec_allocated h (vs ! a)"
  shows "\<exists>r ys. Clone_at (Some a) \<lparr>st_vectors = vs, st_scalars = h\<rparr>
                   = Ok (Some (length vs), \<lparr>st_vectors = vs @ [r], st_scalars = h @ ys\<rparr>) \<and>
           vec_allocated (h @ ys) r \<and>
           vec_addrs r \<subseteq> {length h ..< length h + length ys} \<and>
           (\<forall>k. Vector_read r k (h @ ys) = Vector_read (vs ! a) k h)"
proof -
  from Vector_Clone_deep[OF assms(2)] obtain r ys where
    "Vector_Clone (vs ! a) h = Ok (r, h @ ys)" "vec_allocated (h @ ys) r"
    "vec_addrs r \<subseteq> {length h ..< length h + length ys}"
    "\<forall>k. Vector_read r k (h @ ys) = Vector_read (vs ! a) k h"
    by blast
  with assms(1) show ?thesis
    by (intro exI[of _ r] exI[of _ ys]) (simp add: Clone_at_def vector_at_def new_vector_def)
qed

lemma vector_read_frame:
  assumes "a < length (st_vectors st)" "vec_allocated (st_scalars st) (st_vectors st ! a)"
    and "a \<in> VA" "vec_addrs (st_vectors st ! a) \<subseteq> SA"
    and "same_on VA (st_vectors st) (st_vectors st'')" "same_on SA (st_scalars st) (st_scalars st'')"
  shows "vector_read st'' (Some a) k = vector_read st (Some a) k"
proof -
  from assms(1,3,5) have "a < length (st_vectors st'')" "st_vectors st'' ! a = st_vectors st ! a"
    by (auto simp: same_on_def)
  with assms(1) Vector_read_frame[OF assms(2,4,6), of k] show ?thesis
    by (simp add: vector_read_def vector_at_def)
qed


lemma Vector_read_append:
  "vec_allocated h v \<Longrightarrow> Vector_read v k (h @ ys) = Vector_read v k h"
  by (rule Vector_read_frame[OF _ vec_allocated_addrs same_on_prefix])

lemma vec_addrs_mono:
  "vec_addrs r \<subseteq> {l ..< l + n} \<Longrightarrow> l0 \<le> l \<Longrightarrow> l + n \<le> u \<Longrightarrow> vec_addrs r \<subseteq> {l0 ..< u}"
  by auto

lemma Matrix_Clone_deep:
  assumes "mat_allocated \<lparr>st_vectors = vs, st_scalars = h\<rparr> m"
  shows "\<exists>r0 r1 r2 ys.
           Matrix_Clone m \<lparr>st_vectors = vs, st_scalars = h\<rparr>
             = Ok (m\<lparr> mat_values := Some (length vs), mat_tmp1 := Some (length vs + 1),
                       mat_tmp2 := Some (length vs + 2) \<rparr>,
                   \<lparr>st_vectors = vs @ [r0, r1, r2], st_scalars = h @ ys\<rparr>) \<and>
           (\<forall>r \<in> set [r0, r1, r2]. vec_allocated (h @ ys) r \<and>
                vec_addrs r \<subseteq> {length h ..< length h + length ys}) \<and>
           (\<forall>k. Vector_read r0 k (h @ ys) = Vector_read (vs ! the (mat_values m)) k h) \<and>
           (\<forall>k. Vector_read r1 k (h @ ys) = Vector_read (vs ! the (mat_tmp1 m)) k h) \<and>
           (\<forall>k. Vector_read r2 k (h @ ys) = Vector_read (vs ! the (mat_tmp2 m)) k h)"
proof -
  from assms obtain a0 a1 a2 where
    p0: "mat_values m = Some a0" "a0 < length vs" "vec_allocated h (vs ! a0)" and
    p1: "mat_tmp1 m = Some a1" "a1 < length vs" "vec_allocated h (vs ! a1)" and
    p2: "mat_tmp2 m = Some a2" "a2 < length vs" "vec_allocated h (vs ! a2)"
    by (auto simp: mat_allocated_def mat_ptrs_def)
  from Clone_at_deep[OF p0(2,3)] obtain r0 ys0 where
    c0: "Clone_at (Some a0) \<lparr>st_vectors = vs, st_scalars = h\<rparr>
           = Ok (Some (length vs), \<lparr>st_vectors = vs @ [r0], st_scalars = h @ ys0\<rparr>)"
    and al0: "vec_allocated (h @ ys0) r0"
    and ad0: "vec_addrs r0 \<subseteq> {length h ..< length h + length ys0}"
    and rd0: "\<forall>k. Vector_read r0 k (h @ ys0) = Vector_read (vs ! a0) k h"
    by blast
  let ?vs1 = "vs @ [r0]" and ?h1 = "h @ ys0"
  from p1 have q1: "a1 < length ?vs1" "vec_allocated ?h1 (?vs1 ! a1)"
    by (simp_all add: nth_append vec_allocated_append)
  from Clone_at_deep[OF q1] obtain r1 ys1 where
    c1: "Clone_at (Some a1) \<lparr>st_vectors = ?vs1, st_scalars = ?h1\<rparr>
           = Ok (Some (length ?vs1), \<lparr>st_vectors = ?vs1 @ [r1], st_scalars = ?h1 @ ys1\<rparr>)"
    and al1: "vec_allocated (?h1 @ ys1) r1"
    and ad1: "vec_addrs r1 \<subseteq> {length ?h1 ..< length ?h1 + length ys1}"
    and rd1: "\<forall>k. Vector_read r1 k (?h1 @ ys1) = Vector_read (?vs1 ! a1) k ?h1"
    by blast
  let ?vs2 = "?vs1 @ [r1]" and ?h2 = "?h1 @ ys1"
  from p2 have q2: "a2 < length ?vs2" "vec_allocated ?h2 (?vs2 ! a2)"
    by (simp_all add: nth_append vec_allocated_append del: append_assoc)
  from Clone_at_deep[OF q2] obtain r2 ys2 where
    c2: "Clone_at (Some a2) \<lparr>st_vectors = ?vs2, st_scalars = ?h2\<rparr>
           = Ok (Some (length ?vs2), \<lparr>st_vectors = ?vs2 @ [r2], st_scalars = ?h2 @ ys2\<rparr>)"
    and al2: "vec_allocated (?h2 @ ys2) r2"
    and ad2: "vec_addrs r2 \<subseteq> {length ?h2 ..< length ?h2 + length ys2}"
    and rd2: "\<forall>k. Vector_read r2 k (?h2 @ ys2) = Vector_read (?vs2 ! a2) k ?h2"
    by blast
  let ?ys = "ys0 @ ys1 @ ys2"
  have res: "Matrix_Clone m \<lparr>st_vectors = vs, st_scalars = h\<rparr>
             = Ok (m\<lparr> mat_values := Some (length vs), mat_tmp1 := Some (length vs + 1),
                       mat_tmp2 := Some (length vs + 2) \<rparr>,
                   \<lparr>st_vectors = vs @ [r0, r1, r2], st_scalars = h @ ?ys\<rparr>)"
    using c0 c1 c2 p0(1) p1(1) p2(1) by (cases m) (simp add: Matrix_Clone_def)
  have A0: "vec_allocated (h @ ?ys) r0"
    using vec_allocated_append[OF al0, of "ys1 @ ys2"] by simp
  have A1: "vec_allocated (h @ ?ys) r1"
    using vec_allocated_append[OF al1, of ys2] by simp
  have A2: "vec_allocated (h @ ?ys) r2"
    using al2 by simp
  have D0: "vec_addrs r0 \<subseteq> {length h ..< length h + length ?ys}"
    using ad0 by auto
  have D1: "vec_addrs r1 \<subseteq> {length h ..< length h + length ?ys}"
    using ad1 by auto
  have D2: "vec_addrs r2 \<subseteq> {length h ..< length h + length ?ys}"
    using ad2 by auto
  have R0: "\<forall>k. Vector_read r0 k (h @ ?ys) = Vector_read (vs ! a0) k h"
    using rd0 Vector_read_append[OF al0, of _ "ys1 @ ys2"] by simp
  have R1: "\<forall>k. Vector_read r1 k (h @ ?ys) = Vector_read (vs ! a1) k h"
    using rd1 Vector_read_append[OF al1, of _ ys2] Vector_read_append[OF p1(3), of _ ys0] p1(2)
    by (simp add: nth_append)
  have R2: "\<forall>k. Vector_read r2 k (h @ ?ys) = Vector_read (vs ! a2) k h"
    using rd2 Vector_read_append[OF p2(3), of _ "ys0 @ ys1"] p2(2)
    by (simp add: nth_append)
  from res A0 A1 A2 D0 D1 D2 R0 R1 R2 p0(1) p1(1) p2(1) show ?thesis
    by (intro exI[of _ r0] exI[of _ r1] exI[of _ r2] exI[of _ ?ys]) simp
qed


lemma less_3_cases:
  "n < (3 :: nat) \<Longrightarrow> (n = 0 \<Longrightarrow> P) \<Longrightarrow> (n = 1 \<Longrightarrow> P) \<Longrightarrow> (n = 2 \<Longrightarrow> P) \<Longrightarrow> P"
  by arith

text \<open>
  Where the stored scalars of a vector are scalars of the store, and where the backing
  vector and both scratch vectors of a matrix are such vectors of the store, \<^verbatim>\<open>Clone\<close>
  returns and the copy is deep. For such a vector, \<^verbatim>\<open>Clone\<close> returns a vector of the
  same dimension that reads the same scalar at every index; the scalars of the clone are
  new cells of the store, those of the original are old cells, and the old cells are
  unchanged. Whatever is written later outside the old cells (so, anything written to the
  clone) leaves every read of the original as it was, and whatever is written outside the
  new cells leaves every read of the clone as it was. For such a matrix, \<^verbatim>\<open>Clone\<close>
  returns a header with the same dimensions, offsets and orientation whose backing vector
  and scratch vectors are new vectors of the store with new scalars; every element reads
  the same scalar, and the same two statements hold of the vectors and scalars of the
  original and of the clone.
\<close>

lemma Clone_deep_copy_allocated:
  "(vec_allocated h obj \<longrightarrow>
      (\<exists>r ys. Vector_Clone obj h = Ok (r, h @ ys) \<and> Dim r = Dim obj \<and>
           vec_addrs obj \<subseteq> {..<length h} \<and>
           vec_addrs r \<subseteq> {length h ..< length (h @ ys)} \<and>
           (\<forall>k. Vector_read r k (h @ ys) = Vector_read obj k h) \<and>
           (\<forall>h'' k. same_on {..<length h} (h @ ys) h'' \<longrightarrow>
                     Vector_read obj k h'' = Vector_read obj k h) \<and>
           (\<forall>h'' k. same_on {length h ..< length (h @ ys)} (h @ ys) h'' \<longrightarrow>
                     Vector_read r k h'' = Vector_read r k (h @ ys)))) \<and>
   (mat_allocated st m \<longrightarrow>
      (\<exists>m' vs' ys.
           Matrix_Clone m st
             = Ok (m', \<lparr>st_vectors = st_vectors st @ vs', st_scalars = st_scalars st @ ys\<rparr>) \<and>
           m'\<lparr> mat_values := mat_values m, mat_tmp1 := mat_tmp1 m, mat_tmp2 := mat_tmp2 m \<rparr> = m \<and>
           (\<forall>n < 3. \<exists>a b. mat_ptrs m ! n = Some b \<and> b < length (st_vectors st) \<and>
                      mat_ptrs m' ! n = Some a \<and> length (st_vectors st) \<le> a \<and>
                      a < length (st_vectors st @ vs')) \<and>
           (\<forall>n < 3. \<forall>k.
              vector_read \<lparr>st_vectors = st_vectors st @ vs', st_scalars = st_scalars st @ ys\<rparr>
                  (mat_ptrs m' ! n) k
                = vector_read st (mat_ptrs m ! n) k) \<and>
           (\<forall>i j.
              Matrix_read m' i j \<lparr>st_vectors = st_vectors st @ vs', st_scalars = st_scalars st @ ys\<rparr>
                = Matrix_read m i j st) \<and>
           (\<forall>st'' k. \<forall>n < 3.
              same_on {..<length (st_vectors st)} (st_vectors st @ vs') (st_vectors st'') \<and>
              same_on {..<length (st_scalars st)} (st_scalars st @ ys) (st_scalars st'') \<longrightarrow>
              vector_read st'' (mat_ptrs m ! n) k = vector_read st (mat_ptrs m ! n) k) \<and>
           (\<forall>st'' k. \<forall>n < 3.
              same_on {length (st_vectors st) ..< length (st_vectors st @ vs')}
                (st_vectors st @ vs') (st_vectors st'') \<and>
              same_on {length (st_scalars st) ..< length (st_scalars st @ ys)}
                (st_scalars st @ ys) (st_scalars st'') \<longrightarrow>
              vector_read st'' (mat_ptrs m' ! n) k
                = vector_read \<lparr>st_vectors = st_vectors st @ vs', st_scalars = st_scalars st @ ys\<rparr>
                    (mat_ptrs m' ! n) k)))"
proof (intro conjI impI)
  assume alloc: "vec_allocated h obj"
  show "\<exists>r ys. Vector_Clone obj h = Ok (r, h @ ys) \<and> Dim r = Dim obj \<and>
           vec_addrs obj \<subseteq> {..<length h} \<and>
           vec_addrs r \<subseteq> {length h ..< length (h @ ys)} \<and>
           (\<forall>k. Vector_read r k (h @ ys) = Vector_read obj k h) \<and>
           (\<forall>h'' k. same_on {..<length h} (h @ ys) h'' \<longrightarrow>
                     Vector_read obj k h'' = Vector_read obj k h) \<and>
           (\<forall>h'' k. same_on {length h ..< length (h @ ys)} (h @ ys) h'' \<longrightarrow>
                     Vector_read r k h'' = Vector_read r k (h @ ys))"
  proof -
    from Vector_Clone_deep[OF alloc] obtain r ys where
      c: "Vector_Clone obj h = Ok (r, h @ ys)" "Dim r = Dim obj"
      and al: "vec_allocated (h @ ys) r"
      and ad: "vec_addrs r \<subseteq> {length h ..< length h + length ys}"
      and rd: "\<forall>k. Vector_read r k (h @ ys) = Vector_read obj k h"
      by blast
    have f1: "\<forall>h'' k. same_on {..<length h} (h @ ys) h'' \<longrightarrow>
                       Vector_read obj k h'' = Vector_read obj k h"
      using Vector_read_frame[OF alloc vec_allocated_addrs[OF alloc] same_on_append] by blast
    have f2: "\<forall>h'' k. same_on {length h ..< length (h @ ys)} (h @ ys) h'' \<longrightarrow>
                       Vector_read r k h'' = Vector_read r k (h @ ys)"
      using Vector_read_frame[OF al, of "{length h ..< length (h @ ys)}"] ad by simp
    from c ad rd f1 f2 vec_allocated_addrs[OF alloc] show ?thesis
      by (intro exI[of _ r] exI[of _ ys]) simp
  qed
next
  assume alloc: "mat_allocated st m"
  show "\<exists>m' vs' ys.
           Matrix_Clone m st
             = Ok (m', \<lparr>st_vectors = st_vectors st @ vs', st_scalars = st_scalars st @ ys\<rparr>) \<and>
           m'\<lparr> mat_values := mat_values m, mat_tmp1 := mat_tmp1 m, mat_tmp2 := mat_tmp2 m \<rparr> = m \<and>
           (\<forall>n < 3. \<exists>a b. mat_ptrs m ! n = Some b \<and> b < length (st_vectors st) \<and>
                      mat_ptrs m' ! n = Some a \<and> length (st_vectors st) \<le> a \<and>
                      a < length (st_vectors st @ vs')) \<and>
           (\<forall>n < 3. \<forall>k.
              vector_read \<lparr>st_vectors = st_vectors st @ vs', st_scalars = st_scalars st @ ys\<rparr>
                  (mat_ptrs m' ! n) k
                = vector_read st (mat_ptrs m ! n) k) \<and>
           (\<forall>i j.
              Matrix_read m' i j \<lparr>st_vectors = st_vectors st @ vs', st_scalars = st_scalars st @ ys\<rparr>
                = Matrix_read m i j st) \<and>
           (\<forall>st'' k. \<forall>n < 3.
              same_on {..<length (st_vectors st)} (st_vectors st @ vs') (st_vectors st'') \<and>
              same_on {..<length (st_scalars st)} (st_scalars st @ ys) (st_scalars st'') \<longrightarrow>
              vector_read st'' (mat_ptrs m ! n) k = vector_read st (mat_ptrs m ! n) k) \<and>
           (\<forall>st'' k. \<forall>n < 3.
              same_on {length (st_vectors st) ..< length (st_vectors st @ vs')}
                (st_vectors st @ vs') (st_vectors st'') \<and>
              same_on {length (st_scalars st) ..< length (st_scalars st @ ys)}
                (st_scalars st @ ys) (st_scalars st'') \<longrightarrow>
              vector_read st'' (mat_ptrs m' ! n) k
                = vector_read \<lparr>st_vectors = st_vectors st @ vs', st_scalars = st_scalars st @ ys\<rparr>
                    (mat_ptrs m' ! n) k)"
  proof -
    obtain vs h where st: "st = \<lparr>st_vectors = vs, st_scalars = h\<rparr>"
      by (cases st) simp
    from alloc obtain a0 a1 a2 where
      p0: "mat_values m = Some a0" "a0 < length vs" "vec_allocated h (vs ! a0)" and
      p1: "mat_tmp1 m = Some a1" "a1 < length vs" "vec_allocated h (vs ! a1)" and
      p2: "mat_tmp2 m = Some a2" "a2 < length vs" "vec_allocated h (vs ! a2)"
      by (auto simp: st mat_allocated_def mat_ptrs_def)
    from Matrix_Clone_deep[OF alloc[unfolded st]] obtain r0 r1 r2 ys where
      res: "Matrix_Clone m \<lparr>st_vectors = vs, st_scalars = h\<rparr>
               = Ok (m\<lparr> mat_values := Some (length vs), mat_tmp1 := Some (length vs + 1),
                         mat_tmp2 := Some (length vs + 2) \<rparr>,
                     \<lparr>st_vectors = vs @ [r0, r1, r2], st_scalars = h @ ys\<rparr>)"
      and al: "\<forall>r \<in> set [r0, r1, r2]. vec_allocated (h @ ys) r \<and>
                  vec_addrs r \<subseteq> {length h ..< length h + length ys}"
      and rd: "\<forall>k. Vector_read r0 k (h @ ys) = Vector_read (vs ! the (mat_values m)) k h"
              "\<forall>k. Vector_read r1 k (h @ ys) = Vector_read (vs ! the (mat_tmp1 m)) k h"
              "\<forall>k. Vector_read r2 k (h @ ys) = Vector_read (vs ! the (mat_tmp2 m)) k h"
      by blast
    let ?m' = "m\<lparr> mat_values := Some (length vs), mat_tmp1 := Some (length vs + 1),
                   mat_tmp2 := Some (length vs + 2) \<rparr>"
    let ?vs' = "[r0, r1, r2]"
    let ?st' = "\<lparr>st_vectors = vs @ ?vs', st_scalars = h @ ys\<rparr>"
    have hdr: "?m'\<lparr> mat_values := mat_values m, mat_tmp1 := mat_tmp1 m, mat_tmp2 := mat_tmp2 m \<rparr> = m"
      by simp
    have fresh: "\<forall>n < 3. \<exists>a b. mat_ptrs m ! n = Some b \<and> b < length vs \<and>
                        mat_ptrs ?m' ! n = Some a \<and> length vs \<le> a \<and> a < length (vs @ ?vs')"
      using p0 p1 p2 by (auto simp: mat_ptrs_def elim!: less_3_cases)
    have vr: "\<forall>n < 3. \<forall>k. vector_read ?st' (mat_ptrs ?m' ! n) k = vector_read st (mat_ptrs m ! n) k"
      using p0 p1 p2 rd
      by (auto simp: mat_ptrs_def st vector_read_def vector_at_def nth_append elim!: less_3_cases)
    have mr: "\<forall>i j. Matrix_read ?m' i j ?st' = Matrix_read m i j st"
    proof (intro allI)
      fix i j
      have "index ?m' i j = index m i j" by (simp add: index_def)
      moreover from vr have "\<forall>k. vector_read ?st' (mat_values ?m') k = vector_read st (mat_values m) k"
        by (auto simp: mat_ptrs_def dest: spec[of _ 0])
      ultimately show "Matrix_read ?m' i j ?st' = Matrix_read m i j st"
        by (simp add: Matrix_read_vector_read split: res.splits)
    qed
    have f1: "\<forall>st'' k. \<forall>n < 3.
                same_on {..<length vs} (vs @ ?vs') (st_vectors st'') \<and>
                same_on {..<length h} (h @ ys) (st_scalars st'') \<longrightarrow>
                vector_read st'' (mat_ptrs m ! n) k = vector_read st (mat_ptrs m ! n) k"
    proof (intro allI impI, elim conjE)
      fix st'' :: store and k n
      assume n: "n < (3 :: nat)"
        and s1: "same_on {..<length vs} (vs @ ?vs') (st_vectors st'')"
        and s2: "same_on {..<length h} (h @ ys) (st_scalars st'')"
      from fresh n obtain b where b: "mat_ptrs m ! n = Some b" "b < length vs" by blast
      from n p0 p1 p2 b have ab: "vec_allocated h (vs ! b)"
        by (auto simp: mat_ptrs_def elim!: less_3_cases)
      have "vector_read st'' (Some b) k = vector_read st (Some b) k"
        using b(2) ab same_on_append[OF s1] same_on_append[OF s2] vec_allocated_addrs[OF ab]
        by (intro vector_read_frame[where VA = "{..<length vs}" and SA = "{..<length h}"])
           (simp_all add: st)
      with b show "vector_read st'' (mat_ptrs m ! n) k = vector_read st (mat_ptrs m ! n) k"
        by simp
    qed
    have f2: "\<forall>st'' k. \<forall>n < 3.
                same_on {length vs ..< length (vs @ ?vs')} (vs @ ?vs') (st_vectors st'') \<and>
                same_on {length h ..< length (h @ ys)} (h @ ys) (st_scalars st'') \<longrightarrow>
                vector_read st'' (mat_ptrs ?m' ! n) k = vector_read ?st' (mat_ptrs ?m' ! n) k"
    proof (intro allI impI, elim conjE)
      fix st'' :: store and k n
      assume n: "n < (3 :: nat)"
        and s1: "same_on {length vs ..< length (vs @ ?vs')} (vs @ ?vs') (st_vectors st'')"
        and s2: "same_on {length h ..< length (h @ ys)} (h @ ys) (st_scalars st'')"
      have a: "mat_ptrs ?m' ! n = Some (length vs + n)"
        using n by (auto simp: mat_ptrs_def elim!: less_3_cases)
      have an: "(vs @ ?vs') ! (length vs + n) \<in> set ?vs'"
        using n by (auto simp: nth_append elim!: less_3_cases)
      with al have alr: "vec_allocated (h @ ys) ((vs @ ?vs') ! (length vs + n))"
        and adr: "vec_addrs ((vs @ ?vs') ! (length vs + n)) \<subseteq> {length h ..< length (h @ ys)}"
        by auto
      have "vector_read st'' (Some (length vs + n)) k = vector_read ?st' (Some (length vs + n)) k"
        using n alr adr s1 s2
        by (intro vector_read_frame[where VA = "{length vs ..< length (vs @ ?vs')}"
                  and SA = "{length h ..< length (h @ ys)}"]) simp_all
      with a show "vector_read st'' (mat_ptrs ?m' ! n) k = vector_read ?st' (mat_ptrs ?m' ! n) k"
        by simp
    qed
    show ?thesis
      apply (rule exI[of _ ?m'], rule exI[of _ ?vs'], rule exI[of _ ys])
      apply (simp only: st store.simps)
      apply (intro conjI)
            apply (rule res)
           apply (rule hdr)
          apply (rule fresh)
         apply (rule vr[unfolded st])
        apply (rule mr[unfolded st])
       apply (rule f1[unfolded st])
      apply (rule f2)
      done
  qed
qed

lemma Clone_deep_copy_allocated_example:
  "vec_allocated
     [\<lparr>sc_value = 5, sc_order = 0, sc_derivative = [], sc_hessian = []\<rparr>,
      \<lparr>sc_value = 7, sc_order = 0, sc_derivative = [], sc_hessian = []\<rparr>]
     \<lparr>vec_index = \<lparr>idx_values = [1, 3], idx_sorted = False\<rparr>,
       vec_values = [(1, Some 0), (3, Some 1)], vec_n = 4\<rparr> \<and>
   (\<exists>r ys. Vector_Clone
       \<lparr>vec_index = \<lparr>idx_values = [1, 3], idx_sorted = False\<rparr>,
         vec_values = [(1, Some 0), (3, Some 1)], vec_n = 4\<rparr>
       [\<lparr>sc_value = 5, sc_order = 0, sc_derivative = [], sc_hessian = []\<rparr>,
        \<lparr>sc_value = 7, sc_order = 0, sc_derivative = [], sc_hessian = []\<rparr>]
      = Ok (r, [\<lparr>sc_value = 5, sc_order = 0, sc_derivative = [], sc_hessian = []\<rparr>,
               \<lparr>sc_value = 7, sc_order = 0, sc_derivative = [], sc_hessian = []\<rparr>] @ ys) \<and>
      vec_addrs r \<subseteq> {2 ..< 2 + length ys} \<and>
      Vector_read r 1 ([\<lparr>sc_value = 5, sc_order = 0, sc_derivative = [], sc_hessian = []\<rparr>,
               \<lparr>sc_value = 7, sc_order = 0, sc_derivative = [], sc_hessian = []\<rparr>] @ ys)
        = Ok \<lparr>sc_value = 5, sc_order = 0, sc_derivative = [], sc_hessian = []\<rparr>) \<and>
   (case NEW_MATRIX 1 2 [0] [0] [5] empty_store of Panic \<Rightarrow> False
    | Ok (m, st) \<Rightarrow>
        mat_allocated st m \<and>
        (\<exists>m' vs' ys.
           Matrix_Clone m st
             = Ok (m', \<lparr>st_vectors = st_vectors st @ vs', st_scalars = st_scalars st @ ys\<rparr>) \<and>
           Matrix_read m' 0 0 \<lparr>st_vectors = st_vectors st @ vs', st_scalars = st_scalars st @ ys\<rparr>
             = Ok \<lparr>sc_value = 5, sc_order = 0, sc_derivative = [], sc_hessian = []\<rparr>))"
proof -
  let ?s5 = "\<lparr>sc_value = 5, sc_order = 0, sc_derivative = [], sc_hessian = []\<rparr>"
  let ?H = "[?s5, \<lparr>sc_value = 7, sc_order = 0, sc_derivative = [], sc_hessian = []\<rparr>]"
  let ?V = "\<lparr>vec_index = \<lparr>idx_values = [1, 3], idx_sorted = False\<rparr>,
             vec_values = [(1, Some 0), (3, Some 1)], vec_n = 4\<rparr>"
  let ?m = "\<lparr>mat_values = Some 0, mat_rows = 1, mat_cols = 2, mat_rowOffset = 0,
        mat_rowMax = 1, mat_colOffset = 0, mat_colMax = 2,
        mat_transposed = False, mat_tmp1 = Some 1, mat_tmp2 = Some 2\<rparr>"
  let ?t1 = "\<lparr>vec_index = \<lparr>idx_values = [], idx_sorted = False\<rparr>, vec_values = [], vec_n = 1\<rparr>"
  let ?t2 = "\<lparr>vec_index = \<lparr>idx_values = [], idx_sorted = False\<rparr>, vec_values = [], vec_n = 2\<rparr>"
  let ?v = "\<lparr>vec_index = \<lparr>idx_values = [0], idx_sorted = False\<rparr>,
            vec_values = [(0, Some 0)], vec_n = 2\<rparr>"
  let ?st = "\<lparr>st_vectors = [?v, ?t1, ?t2], st_scalars = [?s5]\<rparr>"
  have new: "NEW_MATRIX 1 2 [0] [0] [5] empty_store = Ok (?m, ?st)"
    by code_simp
  have va: "vec_allocated ?H ?V"
    by (simp add: vec_allocated_def)
  have ma: "mat_allocated ?st ?m"
    by (simp add: mat_allocated_def mat_ptrs_def vec_allocated_def)
  have rv: "Vector_read ?V 1 ?H = Ok ?s5"
    by (simp add: Vector_read_def Vector_ConstAt_def Dim_def const_scalar_def deref_def)
  have rm: "Matrix_read ?m 0 0 ?st = Ok ?s5"
    by (simp add: Matrix_read_def Matrix_ConstAt_def index_def vector_at_def
                  Vector_ConstAt_def Dim_def const_scalar_def deref_def)
  note th = Clone_deep_copy_allocated [of ?H ?V ?st ?m]
  note thvec = th [THEN conjunct1, rule_format, OF va]
  note thmat = th [THEN conjunct2, rule_format, OF ma]
  from thvec obtain r ys where
    c: "Vector_Clone ?V ?H = Ok (r, ?H @ ys)"
    and ad: "vec_addrs r \<subseteq> {length ?H ..< length (?H @ ys)}"
    and rd: "\<forall>k. Vector_read r k (?H @ ys) = Vector_read ?V k ?H"
    by blast
  from ad have ad2: "vec_addrs r \<subseteq> {2 ..< 2 + length ys}"
    by (simp add: eval_nat_numeral)
  from rd rv have rd1: "Vector_read r 1 (?H @ ys) = Ok ?s5"
    by simp
  from c ad2 rd1 have 1: "\<exists>r ys. Vector_Clone ?V ?H = Ok (r, ?H @ ys) \<and>
      vec_addrs r \<subseteq> {2 ..< 2 + length ys} \<and> Vector_read r 1 (?H @ ys) = Ok ?s5"
    by blast
  from thmat obtain m' vs' zs where
    mc: "Matrix_Clone ?m ?st
           = Ok (m', \<lparr>st_vectors = st_vectors ?st @ vs', st_scalars = st_scalars ?st @ zs\<rparr>)"
    and mr: "\<forall>i j. Matrix_read m' i j
                \<lparr>st_vectors = st_vectors ?st @ vs', st_scalars = st_scalars ?st @ zs\<rparr>
              = Matrix_read ?m i j ?st"
    by blast
  from mr rm have mr0: "Matrix_read m' 0 0
                \<lparr>st_vectors = st_vectors ?st @ vs', st_scalars = st_scalars ?st @ zs\<rparr> = Ok ?s5"
    by simp
  from mc mr0 have 2: "\<exists>m' vs' ys.
           Matrix_Clone ?m ?st
             = Ok (m', \<lparr>st_vectors = st_vectors ?st @ vs', st_scalars = st_scalars ?st @ ys\<rparr>) \<and>
           Matrix_read m' 0 0 \<lparr>st_vectors = st_vectors ?st @ vs', st_scalars = st_scalars ?st @ ys\<rparr>
             = Ok ?s5"
    by blast
  show ?thesis
    unfolding new res.case prod.case using va ma 1 2 by blast
qed

subsection \<open>Joint iteration\<close>

text \<open>
  C1 (the code does not do this). The claim: the loop over \<^verbatim>\<open>a.JointIterator(b)\<close>
  until \<^verbatim>\<open>Ok()\<close> is false yields every occupied index of either vector. \<^verbatim>\<open>Ok()\<close>
  of the joint iterator does not test whether the iterators are exhausted: it is false as
  soon as both current scalars have the value \<open>0.0\<close>. Take \<open>a\<close> of dimension 5 with the
  entry 7 at index 3 and, after \<^verbatim>\<open>a.AT(0)\<close>, a zero entry at index 0, and take the empty
  vector \<open>b\<close> of dimension 5. The occupied indices of \<open>a\<close> are 0 and 3. The first
  \<^verbatim>\<open>Next()\<close> stands at index 0, where both values are \<open>0.0\<close>: the loop ends at once,
  it yields no index, and the entry 7 at index 3 is never reached. Both entries are still
  in the vector afterwards.
\<close>

theorem joint_iteration_ends_at_zero_value:
  "(case NEW_VECTOR [3] [7] 5 [] of Panic \<Rightarrow> False
    | Ok (a, h) \<Rightarrow>
        (case Vector_AT a 0 h of Panic \<Rightarrow> False
         | Ok (p, a', h') \<Rightarrow>
             map fst (vec_values a') = [3, 0] \<and>
             Vector_ValueAt a' 0 h' = Ok 0 \<and> Vector_ValueAt a' 3 h' = Ok 7 \<and>
             (case joint_iteration (Some 0) (Some 1)
                     \<lparr>st_vectors = [a', NULL_VECTOR 5], st_scalars = h'\<rparr> of
                Panic \<Rightarrow> False
              | Ok (ys, st') \<Rightarrow>
                  ys = [] \<and> map (map fst \<circ> vec_values) (st_vectors st') = [[3, 0], []])))"
  by code_simp

text \<open>
  The loop ends in the same way at a stored scalar that is no structural zero: one whose
  value is \<open>0.0\<close> and whose derivative is not.
\<close>

lemma joint_iteration_ends_at_zero_value_with_derivative:
  "nullScalar [\<lparr>sc_value = 0, sc_order = 1, sc_derivative = [1], sc_hessian = []\<rparr>] (Some 0)
     = Ok False \<and>
   (case joint_iteration (Some 0) (Some 1)
           \<lparr>st_vectors =
              [\<lparr>vec_index = \<lparr>idx_values = [0], idx_sorted = False\<rparr>,
                vec_values = [(0, Some 0)], vec_n = 1\<rparr>,
               NIL_VECTOR 1],
            st_scalars = [\<lparr>sc_value = 0, sc_order = 1, sc_derivative = [1], sc_hessian = []\<rparr>]\<rparr> of
      Panic \<Rightarrow> False
    | Ok (ys, st') \<Rightarrow> ys = [])"
  by code_simp

end
